theory Spec2Isabelle
  imports Complex_Main "HOL-Library.Word"
begin

section \<open>The behaviour and interaction engine of \<open>src/js/character.ts\<close>\<close>

text \<open>
  The class \<open>Character\<close> is embedded as a record of the fields its behaviour layer
  reads and writes, and each method as a function from the record to the updated record.
  JavaScript numbers are modelled as reals: the decimal literals of the source denote their
  exact values and arithmetic is not rounded. Every call of \<open>Math.random()\<close> and every value
  read from the browser (clock, window and canvas geometry, the pixels of the framebuffer)
  is an explicit argument. A thrown exception is the \<open>Inl\<close> of a sum type. The value
  \<open>undefined\<close> that an out-of-range array read yields is \<open>None\<close>.
\<close>

subsection \<open>Constants\<close>

definition MOVING_SPEED :: real where "MOVING_SPEED = 30"
definition GRAVITY :: real where "GRAVITY = 1000"
definition DRAG :: real where "DRAG = 0.98"
definition MAX_VELOCITY :: real where "MAX_VELOCITY = 1000"
definition MIN_VELOCITY :: real where "MIN_VELOCITY = 5"
definition BOUNCE_DAMPING :: real where "BOUNCE_DAMPING = 0.7"

definition ANIMATION_NAMES :: "string list" where
  "ANIMATION_NAMES = [''Relax'', ''Interact'', ''Move'', ''Sit'', ''Sleep'', ''Special'']"

definition ANIMATION_MARKOV :: "real list list" where
  "ANIMATION_MARKOV =
    [[0.5, 0.0, 0.2, 0.1, 0.1, 0.1],
     [1.0, 0.0, 0.0, 0.0, 0.0, 0.0],
     [0.2, 0.0, 0.6, 0.0, 0.0, 0.2],
     [0.3, 0.0, 0.0, 0.5, 0.0, 0.2],
     [0.1, 0.0, 0.0, 0.0, 0.9, 0.0],
     [0.4, 0.0, 0.4, 0.1, 0.1, 0.0]]"

definition ANIMATION_NAMES_VEHICLE :: "string list" where
  "ANIMATION_NAMES_VEHICLE = [''Relax'', ''Interact'', ''Move'', ''Special'']"

definition ANIMATION_MARKOV_VEHICLE :: "real list list" where
  "ANIMATION_MARKOV_VEHICLE =
    [[0.4, 0.0, 0.5, 0.1],
     [1.0, 0.0, 0.0, 0.0],
     [0.3, 0.0, 0.6, 0.1],
     [0.5, 0.0, 0.5, 0.0]]"

definition ANIMATION_NAMES_NO_SPECIAL :: "string list" where
  "ANIMATION_NAMES_NO_SPECIAL = [''Relax'', ''Interact'', ''Move'', ''Sit'', ''Sleep'']"

definition ANIMATION_MARKOV_NO_SPECIAL :: "real list list" where
  "ANIMATION_MARKOV_NO_SPECIAL =
    [[0.5, 0.0, 0.25, 0.15, 0.1],
     [1.0, 0.0, 0.0, 0.0, 0.0],
     [0.2, 0.0, 0.8, 0.0, 0.0],
     [0.3, 0.0, 0.0, 0.7, 0.0],
     [0.1, 0.0, 0.0, 0.0, 0.9]]"

definition ANIMATION_NAMES_VEHICLE_NO_SPECIAL :: "string list" where
  "ANIMATION_NAMES_VEHICLE_NO_SPECIAL = [''Relax'', ''Interact'', ''Move'']"

definition ANIMATION_MARKOV_VEHICLE_NO_SPECIAL :: "real list list" where
  "ANIMATION_MARKOV_VEHICLE_NO_SPECIAL =
    [[0.5, 0.0, 0.5],
     [1.0, 0.0, 0.0],
     [0.3, 0.0, 0.7]]"

subsection \<open>Data model\<close>

datatype direction = Left | Right

text \<open>\<open>interface Action\<close>. The animation is \<open>None\<close> when the name read from a name list
  was \<open>undefined\<close>.\<close>

record action =
  animation :: "string option"
  direction :: direction
  timestamp :: real

record vec2 =
  vec_x :: real
  vec_y :: real

datatype pointer_events = PointerAuto | PointerNone

text \<open>The fields of \<open>Character\<close>. \<open>lastDragEvent\<close> keeps the \<open>timeStamp\<close> of the stored
  event, the only part of it that is read; \<open>characterLoaded\<close> is the test
  \<open>this.character && this.character.state\<close>; \<open>pointerEvents\<close> is
  \<open>canvas.style.pointerEvents\<close>.\<close>

record character =
  isMouseOver :: bool
  isDragging :: bool
  dragStartRelativeX :: real
  dragStartRelativeY :: real
  lastDragEvent :: "real option"
  velocity :: vec2
  currentAction :: action
  position :: vec2
  isVehicle :: bool
  hasSpecialAnimation :: bool
  allowInteract :: bool
  pixelRatio :: real
  currentMousePos :: vec2
  frameCount :: nat
  lastMouseX :: real
  lastMouseY :: real
  lastFrameTime :: real
  characterLoaded :: bool
  pointerEvents :: pointer_events

datatype error = InvalidProbabilities "real list" | TypeError

subsection \<open>Repertoire selection\<close>

definition getAnimationNames :: "character \<Rightarrow> string list" where
  "getAnimationNames st =
    (if isVehicle st then
       (if hasSpecialAnimation st then ANIMATION_NAMES_VEHICLE
        else ANIMATION_NAMES_VEHICLE_NO_SPECIAL)
     else
       (if hasSpecialAnimation st then ANIMATION_NAMES
        else ANIMATION_NAMES_NO_SPECIAL))"

definition getAnimationMarkov :: "character \<Rightarrow> real list list" where
  "getAnimationMarkov st =
    (if isVehicle st then
       (if hasSpecialAnimation st then ANIMATION_MARKOV_VEHICLE
        else ANIMATION_MARKOV_VEHICLE_NO_SPECIAL)
     else
       (if hasSpecialAnimation st then ANIMATION_MARKOV
        else ANIMATION_MARKOV_NO_SPECIAL))"

subsection \<open>Array primitives of the host language\<close>

text \<open>\<open>Array.prototype.indexOf\<close>: the first position of the value, or \<open>-1\<close>.\<close>

fun indexOf :: "'a list \<Rightarrow> 'a \<Rightarrow> int" where
  "indexOf [] v = -1"
| "indexOf (a # as) v =
    (if a = v then 0
     else (let i = indexOf as v in if i = -1 then -1 else i + 1))"

text \<open>An array read \<open>xs[i]\<close>: \<open>undefined\<close> outside the array.\<close>

definition arrayGet :: "'a list \<Rightarrow> int \<Rightarrow> 'a option" where
  "arrayGet xs i = (if 0 \<le> i \<and> i < int (length xs) then Some (xs ! nat i) else None)"

subsection \<open>The next-action sampler\<close>

text \<open>The loop of \<open>randomPick\<close>, started at index \<open>i\<close> with \<open>cumulativeProb\<close> accumulated
  so far; \<open>None\<close> when the loop runs off the end of the row.\<close>

fun pickLoop :: "real \<Rightarrow> real list \<Rightarrow> nat \<Rightarrow> real \<Rightarrow> nat option" where
  "pickLoop random [] i cumulativeProb = None"
| "pickLoop random (p # ps) i cumulativeProb =
    (let c = cumulativeProb + p
     in if random \<le> c then Some i else pickLoop random ps (Suc i) c)"

definition randomPick :: "real \<Rightarrow> real list \<Rightarrow> error + nat" where
  "randomPick random probabilities =
    (case pickLoop random probabilities 0 0 of
       Some i \<Rightarrow> Inr i
     | None \<Rightarrow> Inl (InvalidProbabilities probabilities))"

definition turnDirection :: "direction \<Rightarrow> direction" where
  "turnDirection current = (if current = Left then Right else Left)"

text \<open>\<open>nextAction\<close>; \<open>random1\<close> is the draw of \<open>randomPick\<close>, \<open>random2\<close> the draw that decides
  the turn. A name that is not in the list gives index \<open>-1\<close>, the row read at \<open>-1\<close> is
  \<open>undefined\<close>, and \<open>randomPick\<close> fails on reading its \<open>length\<close>.\<close>

definition nextAction :: "character \<Rightarrow> action \<Rightarrow> real \<Rightarrow> real \<Rightarrow> error + action" where
  "nextAction st current random1 random2 =
    (let animeIndex = indexOf (map Some (getAnimationNames st)) (animation current)
     in case arrayGet (getAnimationMarkov st) animeIndex of
          None \<Rightarrow> Inl TypeError
        | Some nextIndexProb \<Rightarrow>
           (case randomPick random1 nextIndexProb of
              Inl e \<Rightarrow> Inl e
            | Inr nextAnimIndex \<Rightarrow>
               (let nextAnim = arrayGet (getAnimationNames st) (int nextAnimIndex);
                    nextDirection =
                      (if animation current = Some ''Relax'' \<and> nextAnim = Some ''Move''
                       then (if random2 < 0.4 then turnDirection (direction current)
                             else direction current)
                       else direction current)
                in Inr \<lparr>animation = nextAnim, direction = nextDirection, timestamp = 0\<rparr>)))"

text \<open>The listener's \<open>complete\<close> callback: the sampled action replaces the current one. An
  exception of \<open>nextAction\<close> leaves the callback before the assignment.\<close>

definition complete :: "real \<Rightarrow> real \<Rightarrow> character \<Rightarrow> error + character" where
  "complete random1 random2 st =
    (case nextAction st (currentAction st) random1 random2 of
       Inl e \<Rightarrow> Inl e
     | Inr act \<Rightarrow> Inr (st\<lparr>currentAction := act\<rparr>))"

subsection \<open>Loading a character\<close>

text \<open>\<open>skeletonData.findAnimation(name)\<close> of the skeleton library, read as a truth value: the
  skeleton's animations are given by the list of their names.\<close>

definition findAnimation :: "string list \<Rightarrow> string \<Rightarrow> bool" where
  "findAnimation animations name = (name \<in> set animations)"

text \<open>The fields \<open>loadCharacter\<close> assigns: the vehicle flag is only ever raised, the
  special flag is recomputed.\<close>

definition loadCharacter :: "string list \<Rightarrow> character \<Rightarrow> character" where
  "loadCharacter animations st =
    (let st1 = (if \<not> findAnimation animations ''Sit'' \<or> \<not> findAnimation animations ''Sleep''
                then st\<lparr>isVehicle := True\<rparr> else st)
     in st1\<lparr>hasSpecialAnimation := findAnimation animations ''Special'',
            characterLoaded := True\<rparr>)"

text \<open>What a frame reads from the browser: \<open>Date.now() / 1000\<close>, the window's inner size, the
  canvas's offset size, its bounding rectangle, its pixel size, and the alpha byte that
  \<open>gl.readPixels\<close> returns for a pixel of the framebuffer.\<close>

record viewport =
  now :: real
  innerWidth :: real
  innerHeight :: real
  offsetWidth :: real
  offsetHeight :: real
  canvasRectX :: real
  canvasRectY :: real
  canvasWidth :: nat
  canvasHeight :: nat
  readPixelAlpha :: "int \<Rightarrow> int \<Rightarrow> 8 word"

text \<open>\<open>load\<close>, with \<open>loadingComplete\<close> the answer of \<open>assetManager.isLoadingComplete()\<close> and
  \<open>random\<close> the draw for the start position.\<close>

definition load :: "bool \<Rightarrow> string list \<Rightarrow> real \<Rightarrow> viewport \<Rightarrow> character \<Rightarrow> character" where
  "load loadingComplete animations random env st =
    (if loadingComplete then
       (let st1 = loadCharacter animations st;
            st2 = (if indexOf (map Some (getAnimationNames st1)) (animation (currentAction st1)) = -1
                   then st1\<lparr>currentAction :=
                          (currentAction st1)\<lparr>animation := Some ''Relax'', timestamp := 0\<rparr>\<rparr>
                   else st1);
            st3 = st2\<lparr>lastFrameTime := now env\<rparr>
        in if vec_x (position st3) = -1
           then st3\<lparr>position :=
                  (position st3)\<lparr>vec_x := random * (innerWidth env - offsetWidth env)\<rparr>\<rparr>
           else st3)
     else st)"

text \<open>\<open>loadFromSessionStorage\<close>: \<open>saved\<close> is the stored position and action, if any.\<close>

definition loadFromSessionStorage :: "(vec2 \<times> action) option \<Rightarrow> character \<Rightarrow> character" where
  "loadFromSessionStorage saved st =
    (case saved of
       None \<Rightarrow> st
     | Some (p, act) \<Rightarrow> st\<lparr>position := p, currentAction := act\<rparr>)"

subsection \<open>The frame\<close>

text \<open>The snap and the clamp, which the source writes out once per axis.\<close>

definition snapVelocity :: "real \<Rightarrow> real" where
  "snapVelocity v = (if \<bar>v\<bar> < MIN_VELOCITY then 0 else v)"

definition clampVelocity :: "real \<Rightarrow> real" where
  "clampVelocity v = max (- MAX_VELOCITY) (min MAX_VELOCITY v)"

text \<open>First half of the physics block: gravity, drag, snap, clamp, position update.\<close>

definition updateVelocityAndPosition :: "real \<Rightarrow> character \<Rightarrow> character" where
  "updateVelocityAndPosition delta st =
    (let vy0 = vec_y (velocity st) + GRAVITY * delta;
         vx1 = clampVelocity (snapVelocity (vec_x (velocity st) * DRAG));
         vy1 = clampVelocity (snapVelocity (vy0 * DRAG))
     in st\<lparr>velocity := \<lparr>vec_x = vx1, vec_y = vy1\<rparr>,
           position := \<lparr>vec_x = vec_x (position st) + vx1 * delta,
                        vec_y = vec_y (position st) + vy1 * delta\<rparr>\<rparr>)"

text \<open>Second half: the window bounds collision, walls first, then floor and ceiling.\<close>

definition windowBoundsCollision :: "real \<Rightarrow> real \<Rightarrow> character \<Rightarrow> character" where
  "windowBoundsCollision maxX maxY st =
    (let st1 =
           (if vec_x (position st) < 0
            then st\<lparr>position := (position st)\<lparr>vec_x := 0\<rparr>,
                    velocity := (velocity st)\<lparr>vec_x := - vec_x (velocity st) * BOUNCE_DAMPING\<rparr>\<rparr>
            else if vec_x (position st) > maxX
            then st\<lparr>position := (position st)\<lparr>vec_x := maxX\<rparr>,
                    velocity := (velocity st)\<lparr>vec_x := - vec_x (velocity st) * BOUNCE_DAMPING\<rparr>\<rparr>
            else st)
     in if vec_y (position st1) < 0
        then st1\<lparr>position := (position st1)\<lparr>vec_y := 0\<rparr>,
                 velocity := (velocity st1)\<lparr>vec_y := 0\<rparr>\<rparr>
        else if vec_y (position st1) > maxY
        then st1\<lparr>position := (position st1)\<lparr>vec_y := maxY\<rparr>,
                 velocity := (velocity st1)\<lparr>vec_y := 0\<rparr>\<rparr>
        else st1)"

definition applyPhysics :: "real \<Rightarrow> real \<Rightarrow> real \<Rightarrow> character \<Rightarrow> character" where
  "applyPhysics delta maxX maxY st =
    windowBoundsCollision maxX maxY (updateVelocityAndPosition delta st)"

text \<open>The block that moves the canvas while \<open>Move\<close> plays; \<open>maxX\<close> is
  \<open>window.innerWidth - canvas.offsetWidth\<close>.\<close>

definition moveCanvas :: "real \<Rightarrow> real \<Rightarrow> character \<Rightarrow> character" where
  "moveCanvas delta maxX st =
    (let movement = MOVING_SPEED * delta
     in if direction (currentAction st) = Left then
          (let x1 = max 0 (vec_x (position st) - movement)
           in if x1 \<le> 0
              then st\<lparr>position := (position st)\<lparr>vec_x := 0\<rparr>,
                      currentAction := (currentAction st)\<lparr>direction := Right\<rparr>\<rparr>
              else st\<lparr>position := (position st)\<lparr>vec_x := x1\<rparr>\<rparr>)
        else
          (let x1 = vec_x (position st) + movement
           in if x1 \<ge> maxX
              then st\<lparr>position := (position st)\<lparr>vec_x := maxX\<rparr>,
                      currentAction := (currentAction st)\<lparr>direction := Left\<rparr>\<rparr>
              else st\<lparr>position := (position st)\<lparr>vec_x := x1\<rparr>\<rparr>))"

definition HIT_TEST_INTERVAL :: nat where "HIT_TEST_INTERVAL = 5"

text \<open>The pointer mapped into the render target, whose row 0 is the bottom row.\<close>

definition pixelX :: "viewport \<Rightarrow> character \<Rightarrow> real" where
  "pixelX env st = (vec_x (currentMousePos st) - canvasRectX env) * pixelRatio st"

definition pixelY :: "viewport \<Rightarrow> character \<Rightarrow> real" where
  "pixelY env st =
    real (canvasHeight env) - (vec_y (currentMousePos st) - canvasRectY env) * pixelRatio st"

definition mouseMoved :: "character \<Rightarrow> bool" where
  "mouseMoved st =
    (vec_x (currentMousePos st) \<noteq> lastMouseX st \<or> vec_y (currentMousePos st) \<noteq> lastMouseY st)"

text \<open>The hit test of \<open>render\<close>. \<open>gl.readPixels\<close> takes integer coordinates; inside the
  bounds the conversion of a number is its floor.\<close>

definition hitTest :: "viewport \<Rightarrow> character \<Rightarrow> character" where
  "hitTest env st =
    (if frameCount st mod HIT_TEST_INTERVAL = 0 \<or> mouseMoved st then
       (let st1 = st\<lparr>lastMouseX := vec_x (currentMousePos st),
                      lastMouseY := vec_y (currentMousePos st)\<rparr>
        in if pixelX env st1 \<ge> 0 \<and> pixelX env st1 < real (canvasWidth env)
              \<and> pixelY env st1 \<ge> 0 \<and> pixelY env st1 < real (canvasHeight env)
           then
             (let over = (readPixelAlpha env \<lfloor>pixelX env st1\<rfloor> \<lfloor>pixelY env st1\<rfloor> \<noteq> 0)
              in st1\<lparr>isMouseOver := over,
                     pointerEvents :=
                       (if allowInteract st1 then (if over then PointerAuto else PointerNone)
                        else PointerNone)\<rparr>)
           else st1\<lparr>isMouseOver := False, pointerEvents := PointerNone\<rparr>)
     else st)"

text \<open>\<open>render\<close>, without the calls into the skeleton library and the drawing passes, which
  write none of the fields modelled here (the \<open>complete\<close> callback that the library may
  invoke is the function \<open>complete\<close> above).\<close>

definition render :: "viewport \<Rightarrow> character \<Rightarrow> character" where
  "render env st =
    (let st1 = st\<lparr>frameCount := frameCount st + 1\<rparr>;
         delta = now env - lastFrameTime st1;
         st2 = st1\<lparr>lastFrameTime := now env,
                    currentAction :=
                      (currentAction st1)\<lparr>timestamp := timestamp (currentAction st1) + delta\<rparr>\<rparr>;
         st3 = (if \<not> isDragging st2
                then applyPhysics delta (innerWidth env - offsetWidth env)
                       (innerHeight env - offsetHeight env) st2
                else st2);
         st4 = (if animation (currentAction st3) = Some ''Move''
                then moveCanvas delta (innerWidth env - offsetWidth env) st3
                else st3)
     in hitTest env st4)"

subsection \<open>Pointer handlers\<close>

text \<open>A mouse or touch event: for a touch event the coordinates are those of the first touch
  and \<open>button\<close> is \<open>undefined\<close>.\<close>

record pointer_event =
  clientX :: real
  clientY :: real
  timeStamp :: real
  button :: "nat option"

definition handleMouseMove :: "pointer_event \<Rightarrow> character \<Rightarrow> character" where
  "handleMouseMove e st = st\<lparr>currentMousePos := \<lparr>vec_x = clientX e, vec_y = clientY e\<rparr>\<rparr>"

definition handleCanvasClick :: "character \<Rightarrow> character" where
  "handleCanvasClick st =
    (if characterLoaded st
     then st\<lparr>currentAction :=
             \<lparr>animation = Some ''Interact'', direction = direction (currentAction st),
              timestamp = 0\<rparr>\<rparr>
     else st)"

definition handleDragStart :: "pointer_event \<Rightarrow> character \<Rightarrow> character" where
  "handleDragStart e st =
    (if button e = None \<or> button e = Some 0 then
       (let st1 = st\<lparr>isDragging := True,
                      dragStartRelativeX := clientX e - vec_x (position st),
                      dragStartRelativeY := clientY e - vec_y (position st)\<rparr>
        in if characterLoaded st1
           then st1\<lparr>currentAction :=
                   \<lparr>animation = Some ''Relax'', direction = direction (currentAction st1),
                    timestamp = 0\<rparr>\<rparr>
           else st1)
     else st)"

definition handleDrag :: "pointer_event \<Rightarrow> character \<Rightarrow> character" where
  "handleDrag e st =
    (if isDragging st then
       (let oldX = vec_x (position st);
            oldY = vec_y (position st);
            newX = clientX e - dragStartRelativeX st;
            newY = clientY e - dragStartRelativeY st;
            st1 = (case lastDragEvent st of
                     None \<Rightarrow> st
                   | Some t0 \<Rightarrow>
                      (let dt = (timeStamp e - t0) / 1000
                       in if dt > 0
                          then st\<lparr>velocity := \<lparr>vec_x = (newX - oldX) / dt,
                                                 vec_y = (newY - oldY) / dt\<rparr>\<rparr>
                          else st))
        in st1\<lparr>position := \<lparr>vec_x = newX, vec_y = newY\<rparr>,
               lastDragEvent := Some (timeStamp e)\<rparr>)
     else st)"

definition handleDragEnd :: "character \<Rightarrow> character" where
  "handleDragEnd st = st\<lparr>isDragging := False, lastDragEvent := None\<rparr>"

text \<open>\<open>playAnimation\<close> assigns the action before it calls into the skeleton library.\<close>

definition playAnimation :: "string \<Rightarrow> character \<Rightarrow> character" where
  "playAnimation animationName st =
    st\<lparr>currentAction :=
        \<lparr>animation = Some animationName, direction = direction (currentAction st),
         timestamp = 0\<rparr>\<rparr>"

definition setAllowInteract :: "bool \<Rightarrow> character \<Rightarrow> character" where
  "setAllowInteract b st = st\<lparr>allowInteract := b\<rparr>"

subsection \<open>Runs of the character\<close>

text \<open>Everything that assigns \<open>currentAction\<close>, the position, the velocity or the drag state,
  as one event each. A run stops at the first exception, as the uncaught exception stops the
  callback it is thrown in.\<close>

datatype event =
    Render viewport
  | Complete real real
  | MouseMove pointer_event
  | Click
  | DragStart pointer_event
  | Drag pointer_event
  | DragEnd
  | PlayAnimation string
  | SetAllowInteract bool
  | Load bool "string list" real viewport
  | Restore "(vec2 \<times> action) option"

fun handleEvent :: "event \<Rightarrow> character \<Rightarrow> error + character" where
  "handleEvent (Render env) st = Inr (render env st)"
| "handleEvent (Complete random1 random2) st = complete random1 random2 st"
| "handleEvent (MouseMove e) st = Inr (handleMouseMove e st)"
| "handleEvent Click st = Inr (handleCanvasClick st)"
| "handleEvent (DragStart e) st = Inr (handleDragStart e st)"
| "handleEvent (Drag e) st = Inr (handleDrag e st)"
| "handleEvent DragEnd st = Inr (handleDragEnd st)"
| "handleEvent (PlayAnimation animationName) st = Inr (playAnimation animationName st)"
| "handleEvent (SetAllowInteract b) st = Inr (setAllowInteract b st)"
| "handleEvent (Load loadingComplete animations random env) st =
     Inr (load loadingComplete animations random env st)"
| "handleEvent (Restore saved) st = Inr (loadFromSessionStorage saved st)"

fun run :: "event list \<Rightarrow> character \<Rightarrow> error + character" where
  "run [] st = Inr st"
| "run (ev # evs) st =
    (case handleEvent ev st of Inl e \<Rightarrow> Inl e | Inr st1 \<Rightarrow> run evs st1)"

subsection \<open>Construction\<close>

text \<open>The field initialisers of the class and the assignments of the constructor, for the
  constructor's \<open>allowInteract\<close> and the window's \<open>devicePixelRatio\<close> (0 when it is absent).
  \<open>lastFrameTime\<close>, which stays unassigned until \<open>load\<close> sets it, starts at 0.\<close>

definition newCharacter :: "bool \<Rightarrow> real \<Rightarrow> character" where
  "newCharacter allow devicePixelRatio =
    \<lparr>isMouseOver = False,
     isDragging = False,
     dragStartRelativeX = 0,
     dragStartRelativeY = 0,
     lastDragEvent = None,
     velocity = \<lparr>vec_x = 0, vec_y = 0\<rparr>,
     currentAction = \<lparr>animation = Some ''Relax'', direction = Right, timestamp = 0\<rparr>,
     position = \<lparr>vec_x = -1, vec_y = 10 ^ 9\<rparr>,
     isVehicle = False,
     hasSpecialAnimation = True,
     allowInteract = allow,
     pixelRatio = max 2 (if devicePixelRatio = 0 then 1 else devicePixelRatio),
     currentMousePos = \<lparr>vec_x = 0, vec_y = 0\<rparr>,
     frameCount = 0,
     lastMouseX = -1,
     lastMouseY = -1,
     lastFrameTime = 0,
     characterLoaded = False,
     pointerEvents = PointerNone\<rparr>"

text \<open>Two framebuffers: the one \<open>gl.clear\<close> leaves behind with the clear colour
  \<open>(0, 0, 0, 0)\<close>, and one with a single opaque pixel at column 3 of row 4.\<close>

definition clearedPixels :: "int \<Rightarrow> int \<Rightarrow> 8 word" where
  "clearedPixels px py = 0"

definition opaquePixel :: "int \<Rightarrow> int \<Rightarrow> 8 word" where
  "opaquePixel px py = (if px = 3 \<and> py = 4 then 255 else 0)"

subsection \<open>Properties named by the specification\<close>

text \<open>A transition table is row-stochastic for a name list when it has one row per name, each
  row has one column per name, and each row sums to 1 within \<open>10\<^sup>-\<^sup>6\<close>.\<close>

definition rowStochastic :: "string list \<Rightarrow> real list list \<Rightarrow> bool" where
  "rowStochastic names markov =
    (length markov = length names \<and>
     (\<forall>row \<in> set markov. length row = length names \<and> \<bar>sum_list row - 1\<bar> \<le> 1 / 10 ^ 6))"


text \<open>The events that can occur while a drag is in progress (all but the start and the end of
  a drag, a load and a session restore), and those among them that are not drag-moves.\<close>

fun duringDrag :: "event \<Rightarrow> bool" where
  "duringDrag (DragStart e) = False"
| "duringDrag DragEnd = False"
| "duringDrag (Load loadingComplete animations random env) = False"
| "duringDrag (Restore saved) = False"
| "duringDrag _ = True"

fun betweenDragMoves :: "event \<Rightarrow> bool" where
  "betweenDragMoves (Drag e) = False"
| "betweenDragMoves ev = duringDrag ev"

text \<open>No frame of the run is rendered while the current animation is \<open>Move\<close>.\<close>

fun framesAvoidMove :: "event list \<Rightarrow> character \<Rightarrow> bool" where
  "framesAvoidMove [] st = True"
| "framesAvoidMove (ev # evs) st =
    ((case ev of Render env \<Rightarrow> animation (currentAction st) \<noteq> Some ''Move'' | _ \<Rightarrow> True)
     \<and> (case handleEvent ev st of Inl err \<Rightarrow> True | Inr st1 \<Rightarrow> framesAvoidMove evs st1))"

section \<open>Verification\<close>

subsection \<open>The transition tables\<close>

lemmas table_defs =
  ANIMATION_NAMES_def ANIMATION_MARKOV_def
  ANIMATION_NAMES_VEHICLE_def ANIMATION_MARKOV_VEHICLE_def
  ANIMATION_NAMES_NO_SPECIAL_def ANIMATION_MARKOV_NO_SPECIAL_def
  ANIMATION_NAMES_VEHICLE_NO_SPECIAL_def ANIMATION_MARKOV_VEHICLE_NO_SPECIAL_def

text \<open>
  C8. Each of the four constant transition tables (default, vehicle, no-special, vehicle and
  no-special) is row-stochastic for its name list: it has as many rows as the list has names,
  every row has as many columns, and every row sums to 1 within \<open>10\<^sup>-\<^sup>6\<close> (in exact
  arithmetic the sums are 1).
\<close>

theorem transition_tables_row_stochastic:
  "rowStochastic ANIMATION_NAMES ANIMATION_MARKOV
   \<and> rowStochastic ANIMATION_NAMES_VEHICLE ANIMATION_MARKOV_VEHICLE
   \<and> rowStochastic ANIMATION_NAMES_NO_SPECIAL ANIMATION_MARKOV_NO_SPECIAL
   \<and> rowStochastic ANIMATION_NAMES_VEHICLE_NO_SPECIAL ANIMATION_MARKOV_VEHICLE_NO_SPECIAL"
  by (simp add: rowStochastic_def table_defs)

theorem transition_tables_row_stochastic_witness:
  "[0.5, 0.0, 0.2, 0.1, 0.1, 0.1] \<in> set ANIMATION_MARKOV
   \<and> length [0.5, 0.0, 0.2, 0.1, 0.1, 0.1 :: real] = length ANIMATION_NAMES
   \<and> \<bar>sum_list [0.5, 0.0, 0.2, 0.1, 0.1, 0.1 :: real] - 1\<bar> \<le> 1 / 10 ^ 6
   \<and> length ANIMATION_MARKOV = length ANIMATION_NAMES"
  using transition_tables_row_stochastic
  by (simp add: rowStochastic_def ANIMATION_MARKOV_def ANIMATION_NAMES_def)

subsection \<open>Cumulative selection\<close>

text \<open>The loop returns \<open>i + n\<close> exactly when \<open>n\<close> is the first offset at which the running sum
  reaches the draw.\<close>

lemma pickLoop_Some_iff:
  "pickLoop r ps i c = Some k \<longleftrightarrow>
     (\<exists>n < length ps. k = i + n \<and> r \<le> c + sum_list (take (Suc n) ps)
        \<and> (\<forall>j<n. c + sum_list (take (Suc j) ps) < r))"
proof (induction ps arbitrary: i c)
  case Nil
  then show ?case by simp
next
  case (Cons p ps)
  show ?case
  proof (cases "r \<le> c + p")
    case True
    have "(\<exists>n < length (p # ps). k = i + n \<and> r \<le> c + sum_list (take (Suc n) (p # ps))
        \<and> (\<forall>j<n. c + sum_list (take (Suc j) (p # ps)) < r)) \<longleftrightarrow> k = i"
    proof
      assume "\<exists>n < length (p # ps). k = i + n \<and> r \<le> c + sum_list (take (Suc n) (p # ps))
        \<and> (\<forall>j<n. c + sum_list (take (Suc j) (p # ps)) < r)"
      then obtain n where n: "k = i + n" "\<forall>j<n. c + sum_list (take (Suc j) (p # ps)) < r"
        by blast
      have "n = 0"
      proof (rule ccontr)
        assume "n \<noteq> 0"
        then have "c + sum_list (take (Suc 0) (p # ps)) < r" using n(2) by blast
        with True show False by simp
      qed
      with n show "k = i" by simp
    next
      assume "k = i"
      with True show "\<exists>n < length (p # ps). k = i + n
        \<and> r \<le> c + sum_list (take (Suc n) (p # ps))
        \<and> (\<forall>j<n. c + sum_list (take (Suc j) (p # ps)) < r)"
        by (intro exI[of _ 0]) simp
    qed
    with True show ?thesis by (auto simp: Let_def)
  next
    case False
    have "(\<exists>n < length (p # ps). k = i + n \<and> r \<le> c + sum_list (take (Suc n) (p # ps))
        \<and> (\<forall>j<n. c + sum_list (take (Suc j) (p # ps)) < r)) \<longleftrightarrow>
      (\<exists>m < length ps. k = Suc i + m \<and> r \<le> (c + p) + sum_list (take (Suc m) ps)
        \<and> (\<forall>j<m. (c + p) + sum_list (take (Suc j) ps) < r))" (is "?L \<longleftrightarrow> ?R")
    proof
      assume ?L
      then obtain n where n: "n < length (p # ps)" "k = i + n"
        "r \<le> c + sum_list (take (Suc n) (p # ps))"
        "\<forall>j<n. c + sum_list (take (Suc j) (p # ps)) < r" by blast
      from n(3) False obtain m where m: "n = Suc m" by (cases n) auto
      have "\<forall>j<m. (c + p) + sum_list (take (Suc j) ps) < r"
      proof (intro allI impI)
        fix j assume "j < m"
        then have "Suc j < n" using m by simp
        with n(4) have "c + sum_list (take (Suc (Suc j)) (p # ps)) < r" by blast
        then show "(c + p) + sum_list (take (Suc j) ps) < r" by (simp add: add.assoc)
      qed
      with n m show ?R by (intro exI[of _ m]) (simp add: add.assoc)
    next
      assume ?R
      then obtain m where m: "m < length ps" "k = Suc i + m"
        "r \<le> (c + p) + sum_list (take (Suc m) ps)"
        "\<forall>j<m. (c + p) + sum_list (take (Suc j) ps) < r" by blast
      have "\<forall>j<Suc m. c + sum_list (take (Suc j) (p # ps)) < r"
      proof (intro allI impI)
        fix j assume j: "j < Suc m"
        show "c + sum_list (take (Suc j) (p # ps)) < r"
        proof (cases j)
          case 0
          with False show ?thesis by simp
        next
          case (Suc j')
          with j m(4) have "(c + p) + sum_list (take (Suc j') ps) < r" by simp
          with Suc show ?thesis by (simp add: add.assoc)
        qed
      qed
      with m show ?L by (intro exI[of _ "Suc m"]) (simp add: add.assoc)
    qed
    with False Cons.IH[of "Suc i" "c + p"] show ?thesis by (simp add: Let_def)
  qed
qed

lemma randomPick_Inr_iff:
  "randomPick r ps = Inr i \<longleftrightarrow>
     (i < length ps \<and> r \<le> sum_list (take (Suc i) ps)
        \<and> (\<forall>j<i. sum_list (take (Suc j) ps) < r))"
  using pickLoop_Some_iff[of r ps 0 0 i]
  by (auto simp: randomPick_def split: option.splits)

text \<open>
  C1. With the full six-entry repertoire (not a vehicle, with \<open>Special\<close>) and current
  animation \<open>Relax\<close>, the row sampled is \<open>[0.5, 0, 0.2, 0.1, 0.1, 0.1]\<close>; with the draw forced to
  0.55 \<open>randomPick\<close> returns index 2 and \<open>nextAction\<close> returns the action \<open>Move\<close>, started at
  time 0. In general \<open>randomPick\<close> returns \<open>i\<close> exactly when \<open>i\<close> is the first index whose
  cumulative sum, accumulated left to right, is at least the draw.
\<close>

theorem nextAction_relax_draw_055:
  assumes "\<not> isVehicle st" and "hasSpecialAnimation st"
    and "animation current = Some ''Relax''"
  shows "arrayGet (getAnimationMarkov st)
           (indexOf (map Some (getAnimationNames st)) (animation current))
           = Some [0.5, 0, 0.2, 0.1, 0.1, 0.1]
    \<and> randomPick 0.55 [0.5, 0, 0.2, 0.1, 0.1, 0.1] = Inr 2
    \<and> arrayGet (getAnimationNames st) 2 = Some ''Move''
    \<and> nextAction st current 0.55 random2 =
        Inr \<lparr>animation = Some ''Move'',
             direction = (if random2 < 0.4 then turnDirection (direction current)
                          else direction current),
             timestamp = 0\<rparr>
    \<and> ((randomPick r ps = Inr i) =
         (i < length ps \<and> r \<le> sum_list (take (Suc i) ps)
          \<and> (\<forall>j<i. sum_list (take (Suc j) ps) < r)))"
  using assms randomPick_Inr_iff[of r ps i]
  by (simp add: nextAction_def getAnimationNames_def getAnimationMarkov_def
      ANIMATION_NAMES_def ANIMATION_MARKOV_def arrayGet_def randomPick_def)

theorem nextAction_relax_draw_055_witness:
  "\<not> isVehicle (newCharacter True 1) \<and> hasSpecialAnimation (newCharacter True 1)
   \<and> animation (currentAction (newCharacter True 1)) = Some ''Relax''
   \<and> nextAction (newCharacter True 1) (currentAction (newCharacter True 1)) 0.55 0.9 =
       Inr \<lparr>animation = Some ''Move'', direction = Right, timestamp = 0\<rparr>
   \<and> nextAction (newCharacter True 1) (currentAction (newCharacter True 1)) 0.55 0.1 =
       Inr \<lparr>animation = Some ''Move'', direction = Left, timestamp = 0\<rparr>
   \<and> randomPick 0.55 [0.5, 0, 0.2, 0.1, 0.1, 0.1] = Inr 2
   \<and> sum_list (take 2 [0.5, 0, 0.2, 0.1, 0.1, 0.1 :: real]) < 0.55
   \<and> 0.55 \<le> sum_list (take 3 [0.5, 0, 0.2, 0.1, 0.1, 0.1 :: real])"
  using nextAction_relax_draw_055[of "newCharacter True 1"
      "currentAction (newCharacter True 1)" "0.9" "0.55" "[0.5, 0, 0.2, 0.1, 0.1, 0.1]" 2]
    nextAction_relax_draw_055[of "newCharacter True 1"
      "currentAction (newCharacter True 1)" "0.1" "0.55" "[0.5, 0, 0.2, 0.1, 0.1, 0.1]" 2]
  by (simp add: newCharacter_def turnDirection_def)

subsection \<open>Array primitives\<close>

lemma indexOf_ge: "- 1 \<le> indexOf xs v"
  by (induction xs) (auto simp: Let_def)

lemma indexOf_absent_iff: "indexOf xs v = - 1 \<longleftrightarrow> v \<notin> set xs"
proof (induction xs)
  case Nil
  show ?case by simp
next
  case (Cons a xs)
  have "- 1 \<le> indexOf xs v" by (rule indexOf_ge)
  then have "indexOf xs v + 1 \<noteq> - 1" by linarith
  with Cons show ?case by (auto simp: Let_def)
qed

lemma indexOf_present:
  "v \<in> set xs \<Longrightarrow> 0 \<le> indexOf xs v \<and> indexOf xs v < int (length xs)
     \<and> xs ! nat (indexOf xs v) = v"
proof (induction xs)
  case Nil
  then show ?case by simp
next
  case (Cons a xs)
  show ?case
  proof (cases "a = v")
    case True
    then show ?thesis by simp
  next
    case False
    with Cons.prems have v: "v \<in> set xs" by simp
    then have ne: "indexOf xs v \<noteq> - 1" by (simp add: indexOf_absent_iff)
    from Cons.IH[OF v] have ih: "0 \<le> indexOf xs v" "indexOf xs v < int (length xs)"
      "xs ! nat (indexOf xs v) = v" by simp_all
    from ih(1) have "nat (indexOf xs v + 1) = Suc (nat (indexOf xs v))" by simp
    with False ne ih show ?thesis by (simp add: Let_def)
  qed
qed

lemma arrayGet_Some_mem: "arrayGet xs i = Some x \<Longrightarrow> x \<in> set xs"
  by (auto simp: arrayGet_def split: if_splits)

lemma arrayGet_neg: "arrayGet xs (- 1) = None"
  by (simp add: arrayGet_def)

subsection \<open>Failure and success of the sampler\<close>

lemma randomPick_cases:
  "(\<exists>i. randomPick r ps = Inr i) \<or> randomPick r ps = Inl (InvalidProbabilities ps)"
  by (simp add: randomPick_def split: option.splits)

lemma randomPick_Inr_less: "randomPick r ps = Inr i \<Longrightarrow> i < length ps"
  by (simp add: randomPick_Inr_iff)

lemma sum_list_take_le:
  fixes ps :: "real list"
  assumes "\<forall>p \<in> set ps. 0 \<le> p"
  shows "sum_list (take n ps) \<le> sum_list ps"
proof -
  have "sum_list ps = sum_list (take n ps) + sum_list (drop n ps)"
    by (metis append_take_drop_id sum_list_append)
  moreover have "0 \<le> sum_list (drop n ps)"
    using assms by (intro sum_list_nonneg) (auto dest: in_set_dropD)
  ultimately show ?thesis by linarith
qed

lemma randomPick_short_row:
  assumes "\<forall>p \<in> set ps. 0 \<le> p" and "sum_list ps < r"
  shows "randomPick r ps = Inl (InvalidProbabilities ps)"
proof -
  have "randomPick r ps \<noteq> Inr i" for i
  proof
    assume "randomPick r ps = Inr i"
    then have "r \<le> sum_list (take (Suc i) ps)" by (simp add: randomPick_Inr_iff)
    also have "\<dots> \<le> sum_list ps" using assms(1) by (rule sum_list_take_le)
    finally show False using assms(2) by simp
  qed
  with randomPick_cases[of r ps] show ?thesis by blast
qed

lemma pickLoop_None_less:
  "pickLoop r ps i c = None \<Longrightarrow> ps \<noteq> [] \<Longrightarrow> c + sum_list ps < r"
proof (induction ps arbitrary: i c)
  case Nil
  then show ?case by simp
next
  case (Cons p ps)
  from Cons.prems(1) have less: "c + p < r" and rest: "pickLoop r ps (Suc i) (c + p) = None"
    by (auto simp: Let_def split: if_splits)
  show ?case
  proof (cases "ps = []")
    case True
    with less show ?thesis by simp
  next
    case False
    from Cons.IH[OF rest False] show ?thesis by (simp add: add.assoc)
  qed
qed

lemma randomPick_full_row:
  assumes "r \<le> sum_list ps" and "ps \<noteq> []"
  shows "\<exists>i. randomPick r ps = Inr i"
proof (cases "pickLoop r ps 0 0")
  case None
  from pickLoop_None_less[OF None assms(2)] assms(1) show ?thesis by simp
next
  case (Some i)
  then show ?thesis by (simp add: randomPick_def)
qed

lemma nextAction_InrE:
  assumes "nextAction st current r1 r2 = Inr act"
  obtains row k where
    "arrayGet (getAnimationMarkov st)
       (indexOf (map Some (getAnimationNames st)) (animation current)) = Some row"
    "randomPick r1 row = Inr k"
    "animation act = arrayGet (getAnimationNames st) (int k)"
    "timestamp act = 0"
  using assms
  by (auto simp: nextAction_def Let_def split: option.splits sum.splits)

lemma nextAction_unknown:
  assumes "animation current \<notin> Some ` set (getAnimationNames st)"
  shows "nextAction st current r1 r2 = Inl TypeError"
proof -
  from assms have "indexOf (map Some (getAnimationNames st)) (animation current) = - 1"
    by (simp add: indexOf_absent_iff)
  then show ?thesis by (simp add: nextAction_def arrayGet_neg)
qed

lemma tables_shape:
  "length (getAnimationMarkov st) = length (getAnimationNames st)"
  "row \<in> set (getAnimationMarkov st) \<Longrightarrow> length row = length (getAnimationNames st)"
  by (auto simp: getAnimationMarkov_def getAnimationNames_def table_defs)

lemma nextAction_in_names:
  assumes "nextAction st current r1 r2 = Inr act"
  shows "animation act \<in> Some ` set (getAnimationNames st)"
proof -
  from assms obtain row k where row:
    "arrayGet (getAnimationMarkov st)
       (indexOf (map Some (getAnimationNames st)) (animation current)) = Some row"
    and k: "randomPick r1 row = Inr k"
    and a: "animation act = arrayGet (getAnimationNames st) (int k)"
    by (rule nextAction_InrE)
  from row have "row \<in> set (getAnimationMarkov st)" by (rule arrayGet_Some_mem)
  then have "length row = length (getAnimationNames st)" by (rule tables_shape(2))
  with k have "k < length (getAnimationNames st)" by (simp add: randomPick_Inr_iff)
  with a show ?thesis by (simp add: arrayGet_def)
qed


lemma tables_rows_sum:
  "row \<in> set (getAnimationMarkov st) \<Longrightarrow> sum_list row = 1 \<and> row \<noteq> []"
  by (auto simp: getAnimationMarkov_def table_defs split: if_splits)

lemma getAnimationNames_currentAction_update:
  "getAnimationNames (st\<lparr>currentAction := c\<rparr>) = getAnimationNames st"
  by (simp add: getAnimationNames_def)

lemma getAnimationMarkov_currentAction_update:
  "getAnimationMarkov (st\<lparr>currentAction := c\<rparr>) = getAnimationMarkov st"
  by (simp add: getAnimationMarkov_def)

lemma nextAction_currentAction_update:
  "nextAction (st\<lparr>currentAction := c\<rparr>) current r1 r2 = nextAction st current r1 r2"
  unfolding nextAction_def getAnimationNames_currentAction_update
    getAnimationMarkov_currentAction_update
  by (rule refl)

lemma nextAction_returns:
  assumes "animation current \<in> Some ` set (getAnimationNames st)" and "r1 \<le> 1"
  shows "\<exists>act. nextAction st current r1 r2 = Inr act"
proof -
  let ?idx = "indexOf (map Some (getAnimationNames st)) (animation current)"
  from assms(1) have "animation current \<in> set (map Some (getAnimationNames st))" by simp
  from indexOf_present[OF this]
  have "0 \<le> ?idx" "?idx < int (length (getAnimationMarkov st))"
    by (simp_all add: tables_shape(1))
  then obtain row where row: "arrayGet (getAnimationMarkov st) ?idx = Some row"
    by (simp add: arrayGet_def)
  then have "row \<in> set (getAnimationMarkov st)" by (rule arrayGet_Some_mem)
  then have "sum_list row = 1" "row \<noteq> []" by (simp_all add: tables_rows_sum)
  with assms(2) obtain k where "randomPick r1 row = Inr k"
    using randomPick_full_row[of r1 row] by auto
  with row show ?thesis by (simp add: nextAction_def Let_def)
qed

text \<open>
  C2 (as amended). A row of non-negative entries whose sum stays below the draw makes
  \<open>randomPick\<close> throw the error \<open>Invalid probabilities\<close>; there is no fallback to the idle
  action: whenever \<open>randomPick\<close> throws on the row selected for the current action,
  \<open>nextAction\<close> and the \<open>complete\<close> callback end with the same exception and no action is
  returned.
\<close>

theorem randomPick_throws_on_short_row:
  "((\<forall>p \<in> set ps. 0 \<le> p) \<and> sum_list ps < r \<longrightarrow>
      randomPick r ps = Inl (InvalidProbabilities ps))
   \<and> (arrayGet (getAnimationMarkov st)
         (indexOf (map Some (getAnimationNames st)) (animation current)) = Some row
       \<and> randomPick r1 row = Inl e \<longrightarrow>
         nextAction st current r1 r2 = Inl e
         \<and> complete r1 r2 (st\<lparr>currentAction := current\<rparr>) = Inl e)"
proof (intro conjI impI)
  assume "(\<forall>p \<in> set ps. 0 \<le> p) \<and> sum_list ps < r"
  then show "randomPick r ps = Inl (InvalidProbabilities ps)"
    by (simp add: randomPick_short_row)
next
  assume a: "arrayGet (getAnimationMarkov st)
         (indexOf (map Some (getAnimationNames st)) (animation current)) = Some row
       \<and> randomPick r1 row = Inl e"
  then show "nextAction st current r1 r2 = Inl e" by (simp add: nextAction_def)
  with a show "complete r1 r2 (st\<lparr>currentAction := current\<rparr>) = Inl e"
    by (simp add: complete_def nextAction_currentAction_update)
qed

theorem randomPick_throws_on_short_row_witness:
  "(0 :: real) \<le> 0.5 \<and> (0 :: real) \<le> 0.2 \<and> sum_list [0.5, 0.2] < (0.9 :: real)
   \<and> randomPick 0.9 [0.5, 0.2] = Inl (InvalidProbabilities [0.5, 0.2])
   \<and> arrayGet (getAnimationMarkov (newCharacter True 1))
        (indexOf (map Some (getAnimationNames (newCharacter True 1))) (Some ''Relax''))
      = Some [0.5, 0, 0.2, 0.1, 0.1, 0.1]
   \<and> randomPick 1.5 [0.5, 0, 0.2, 0.1, 0.1, 0.1]
      = Inl (InvalidProbabilities [0.5, 0, 0.2, 0.1, 0.1, 0.1])
   \<and> nextAction (newCharacter True 1)
        \<lparr>animation = Some ''Relax'', direction = Right, timestamp = 0\<rparr> 1.5 0.5
      = Inl (InvalidProbabilities [0.5, 0, 0.2, 0.1, 0.1, 0.1])"
  using randomPick_throws_on_short_row[of "[0.5, 0.2]" "0.9" "newCharacter True 1"
      "\<lparr>animation = Some ''Relax'', direction = Right, timestamp = 0\<rparr>"
      "[0.5, 0, 0.2, 0.1, 0.1, 0.1]" "1.5" "InvalidProbabilities [0.5, 0, 0.2, 0.1, 0.1, 0.1]" "0.5"]
  by (simp add: newCharacter_def getAnimationMarkov_def getAnimationNames_def table_defs
      arrayGet_def randomPick_def)

text \<open>The draw 0.9 on the row \<open>[0.5, 0.2]\<close> is not answered with the idle index 0; the call
  throws.\<close>

theorem randomPick_short_row_counterexample:
  "randomPick 0.9 [0.5, 0.2] = Inl (InvalidProbabilities [0.5, 0.2])
   \<and> randomPick 0.9 [0.5, 0.2] \<noteq> Inr 0"
  by (simp add: randomPick_def)

subsection \<open>Fields that the handlers leave alone\<close>

lemma hitTest_keeps:
  "isVehicle (hitTest env st) = isVehicle st"
  "hasSpecialAnimation (hitTest env st) = hasSpecialAnimation st"
  "currentAction (hitTest env st) = currentAction st"
  "position (hitTest env st) = position st"
  "velocity (hitTest env st) = velocity st"
  "isDragging (hitTest env st) = isDragging st"
  "dragStartRelativeX (hitTest env st) = dragStartRelativeX st"
  "dragStartRelativeY (hitTest env st) = dragStartRelativeY st"
  by (simp_all add: hitTest_def Let_def)

lemma moveCanvas_keeps:
  "isVehicle (moveCanvas delta maxX st) = isVehicle st"
  "hasSpecialAnimation (moveCanvas delta maxX st) = hasSpecialAnimation st"
  "animation (currentAction (moveCanvas delta maxX st)) = animation (currentAction st)"
  "velocity (moveCanvas delta maxX st) = velocity st"
  "vec_y (position (moveCanvas delta maxX st)) = vec_y (position st)"
  "isDragging (moveCanvas delta maxX st) = isDragging st"
  "dragStartRelativeX (moveCanvas delta maxX st) = dragStartRelativeX st"
  "dragStartRelativeY (moveCanvas delta maxX st) = dragStartRelativeY st"
  by (simp_all add: moveCanvas_def Let_def)

lemma applyPhysics_keeps:
  "isVehicle (applyPhysics delta maxX maxY st) = isVehicle st"
  "hasSpecialAnimation (applyPhysics delta maxX maxY st) = hasSpecialAnimation st"
  "currentAction (applyPhysics delta maxX maxY st) = currentAction st"
  "isDragging (applyPhysics delta maxX maxY st) = isDragging st"
  by (simp_all add: applyPhysics_def windowBoundsCollision_def updateVelocityAndPosition_def
      Let_def)

lemma render_keeps:
  "isVehicle (render env st) = isVehicle st"
  "hasSpecialAnimation (render env st) = hasSpecialAnimation st"
  "animation (currentAction (render env st)) = animation (currentAction st)"
  "isDragging (render env st) = isDragging st"
  by (simp_all add: render_def Let_def hitTest_keeps moveCanvas_keeps applyPhysics_keeps)

lemma loadCharacter_keeps:
  "currentAction (loadCharacter animations st) = currentAction st"
  "isVehicle st \<Longrightarrow> isVehicle (loadCharacter animations st)"
  by (simp_all add: loadCharacter_def Let_def)

lemma load_isVehicle: "isVehicle st \<Longrightarrow> isVehicle (load c animations random env st)"
  by (simp add: load_def Let_def loadCharacter_keeps)

lemma handleEvent_isVehicle:
  assumes "handleEvent ev st = Inr st'" and "isVehicle st"
  shows "isVehicle st'"
proof (cases ev)
  case (Render env)
  with assms show ?thesis by (auto simp: render_keeps)
next
  case (Complete r1 r2)
  with assms show ?thesis by (auto simp: complete_def split: sum.splits)
next
  case (Load c animations random env)
  with assms show ?thesis by (auto simp: load_isVehicle)
next
  case (Restore saved)
  with assms show ?thesis by (auto simp: loadFromSessionStorage_def split: option.splits)
qed (use assms in \<open>auto simp: handleMouseMove_def handleCanvasClick_def handleDragStart_def
      handleDrag_def handleDragEnd_def playAnimation_def setAllowInteract_def Let_def
      split: option.splits\<close>)

lemma run_isVehicle:
  "run evs st = Inr st' \<Longrightarrow> isVehicle st \<Longrightarrow> isVehicle st'"
proof (induction evs arbitrary: st)
  case Nil
  then show ?case by simp
next
  case (Cons ev evs)
  from Cons.prems(1) obtain st1 where st1: "handleEvent ev st = Inr st1"
    and rest: "run evs st1 = Inr st'"
    by (auto split: sum.splits)
  from handleEvent_isVehicle[OF st1 Cons.prems(2)] have "isVehicle st1" .
  with Cons.IH[OF rest] show ?case .
qed

lemma vehicle_names:
  "isVehicle st \<Longrightarrow>
     (getAnimationNames st = ANIMATION_NAMES_VEHICLE
        \<or> getAnimationNames st = ANIMATION_NAMES_VEHICLE_NO_SPECIAL)
     \<and> ''Sit'' \<notin> set (getAnimationNames st) \<and> ''Sleep'' \<notin> set (getAnimationNames st)"
  by (simp add: getAnimationNames_def table_defs)

text \<open>
  C7. When the loaded skeleton lacks \<open>Sit\<close> or lacks \<open>Sleep\<close>, \<open>loadCharacter\<close> classifies the
  character as a vehicle, and the classification stays through every later run of events.
  Every action that \<open>nextAction\<close> returns afterwards, for any current action and any two
  draws, has its animation name in the active name list, which is one of the two vehicle
  lists and contains neither \<open>Sit\<close> nor \<open>Sleep\<close>.
\<close>

theorem vehicle_never_sits_or_sleeps:
  assumes "\<not> findAnimation animations ''Sit'' \<or> \<not> findAnimation animations ''Sleep''"
    and "run evs (loadCharacter animations st) = Inr st'"
    and "nextAction st' current random1 random2 = Inr act"
  shows "isVehicle (loadCharacter animations st) \<and> isVehicle st'
    \<and> (getAnimationNames st' = ANIMATION_NAMES_VEHICLE
         \<or> getAnimationNames st' = ANIMATION_NAMES_VEHICLE_NO_SPECIAL)
    \<and> ''Sit'' \<notin> set (getAnimationNames st') \<and> ''Sleep'' \<notin> set (getAnimationNames st')
    \<and> animation act \<in> Some ` set (getAnimationNames st')
    \<and> animation act \<noteq> Some ''Sit'' \<and> animation act \<noteq> Some ''Sleep''"
proof -
  from assms(1) have v0: "isVehicle (loadCharacter animations st)"
    by (auto simp: loadCharacter_def Let_def)
  from run_isVehicle[OF assms(2) v0] have v: "isVehicle st'" .
  note names = vehicle_names[OF v]
  from nextAction_in_names[OF assms(3)]
  have mem: "animation act \<in> Some ` set (getAnimationNames st')" .
  with names have "animation act \<noteq> Some ''Sit''" "animation act \<noteq> Some ''Sleep''"
    by auto
  with v0 v names mem show ?thesis by simp
qed

theorem vehicle_never_sits_or_sleeps_witness:
  "\<not> findAnimation [''Relax'', ''Interact'', ''Move'', ''Special''] ''Sit''
   \<and> \<not> findAnimation [''Relax'', ''Interact'', ''Move'', ''Special''] ''Sleep''
   \<and> run [Click, Complete 0.3 0.5]
        (loadCharacter [''Relax'', ''Interact'', ''Move'', ''Special''] (newCharacter True 1))
      = Inr ((loadCharacter [''Relax'', ''Interact'', ''Move'', ''Special'']
               (newCharacter True 1))
             \<lparr>currentAction := \<lparr>animation = Some ''Relax'', direction = Right, timestamp = 0\<rparr>\<rparr>)
   \<and> nextAction
        ((loadCharacter [''Relax'', ''Interact'', ''Move'', ''Special''] (newCharacter True 1))
           \<lparr>currentAction := \<lparr>animation = Some ''Relax'', direction = Right, timestamp = 0\<rparr>\<rparr>)
        \<lparr>animation = Some ''Relax'', direction = Right, timestamp = 0\<rparr> 0.95 0.5
      = Inr \<lparr>animation = Some ''Special'', direction = Right, timestamp = 0\<rparr>
   \<and> isVehicle (loadCharacter [''Relax'', ''Interact'', ''Move'', ''Special'']
        (newCharacter True 1))
   \<and> Some ''Special'' \<noteq> Some ''Sit'' \<and> Some ''Special'' \<noteq> Some ''Sleep''"
  using vehicle_never_sits_or_sleeps[of "[''Relax'', ''Interact'', ''Move'', ''Special'']"
      "[Click, Complete 0.3 0.5]" "newCharacter True 1"
      "(loadCharacter [''Relax'', ''Interact'', ''Move'', ''Special''] (newCharacter True 1))
         \<lparr>currentAction := \<lparr>animation = Some ''Relax'', direction = Right, timestamp = 0\<rparr>\<rparr>"
      "\<lparr>animation = Some ''Relax'', direction = Right, timestamp = 0\<rparr>" "0.95" "0.5"
      "\<lparr>animation = Some ''Special'', direction = Right, timestamp = 0\<rparr>"]
  by (simp add: findAnimation_def loadCharacter_def newCharacter_def handleCanvasClick_def
      complete_def nextAction_def getAnimationNames_def getAnimationMarkov_def table_defs
      arrayGet_def randomPick_def Let_def)

subsection \<open>Unknown animation names\<close>

lemma load_known_animation:
  "animation (currentAction (load True animations random env st))
     \<in> Some ` set (getAnimationNames (load True animations random env st))"
proof -
  let ?st1 = "loadCharacter animations st"
  have names: "getAnimationNames (load True animations random env st) = getAnimationNames ?st1"
    by (simp add: load_def Let_def getAnimationNames_def)
  have relax: "''Relax'' \<in> set (getAnimationNames ?st1)"
    by (simp add: getAnimationNames_def table_defs)
  show ?thesis
  proof (cases "indexOf (map Some (getAnimationNames ?st1)) (animation (currentAction ?st1)) = - 1")
    case True
    then have "animation (currentAction (load True animations random env st)) = Some ''Relax''"
      by (simp add: load_def Let_def)
    with relax names show ?thesis by simp
  next
    case False
    then have "animation (currentAction (load True animations random env st))
        = animation (currentAction ?st1)"
      by (simp add: load_def Let_def)
    moreover from False have "animation (currentAction ?st1) \<in> set (map Some (getAnimationNames ?st1))"
      by (simp only: indexOf_absent_iff) simp
    ultimately show ?thesis using names by simp
  qed
qed

text \<open>
  C3 (as amended). For a current action whose animation name is not in the active name list,
  \<open>nextAction\<close> ends with a \<open>TypeError\<close> (the row read at index \<open>-1\<close> is \<open>undefined\<close>), and so does
  the \<open>complete\<close> callback, which resets nothing. The reset to \<open>Relax\<close> with timestamp 0 is made
  by \<open>load\<close>, before playback: when the current animation is not in the name list of the
  character just loaded, \<open>load\<close> replaces it by \<open>Relax\<close> at time 0, so that after \<open>load\<close> the
  current animation is always in the active name list.
\<close>

theorem unknown_animation_throws_and_load_resets:
  "(animation current \<notin> Some ` set (getAnimationNames st) \<longrightarrow>
      nextAction st current random1 random2 = Inl TypeError
      \<and> complete random1 random2 (st\<lparr>currentAction := current\<rparr>) = Inl TypeError)
   \<and> animation (currentAction (load True animations random env st0))
       \<in> Some ` set (getAnimationNames (load True animations random env st0))
   \<and> (animation (currentAction st0) \<notin> Some ` set (getAnimationNames (loadCharacter animations st0))
       \<longrightarrow> animation (currentAction (load True animations random env st0)) = Some ''Relax''
         \<and> timestamp (currentAction (load True animations random env st0)) = 0)"
proof (intro conjI impI)
  assume a: "animation current \<notin> Some ` set (getAnimationNames st)"
  then show "nextAction st current random1 random2 = Inl TypeError"
    by (rule nextAction_unknown)
  then show "complete random1 random2 (st\<lparr>currentAction := current\<rparr>) = Inl TypeError"
    by (simp add: complete_def nextAction_currentAction_update)
next
  show "animation (currentAction (load True animations random env st0))
       \<in> Some ` set (getAnimationNames (load True animations random env st0))"
    by (rule load_known_animation)
next
  assume "animation (currentAction st0) \<notin> Some ` set (getAnimationNames (loadCharacter animations st0))"
  then have "indexOf (map Some (getAnimationNames (loadCharacter animations st0)))
      (animation (currentAction (loadCharacter animations st0))) = - 1"
    by (simp add: indexOf_absent_iff loadCharacter_keeps)
  then show "animation (currentAction (load True animations random env st0)) = Some ''Relax''"
    "timestamp (currentAction (load True animations random env st0)) = 0"
    by (simp_all add: load_def Let_def)
qed

theorem unknown_animation_throws_and_load_resets_witness:
  "Some ''Sit'' \<notin> Some ` set (getAnimationNames
       (loadCharacter [''Relax'', ''Interact'', ''Move''] (newCharacter True 1)))
   \<and> nextAction (loadCharacter [''Relax'', ''Interact'', ''Move''] (newCharacter True 1))
        \<lparr>animation = Some ''Sit'', direction = Left, timestamp = 3\<rparr> 0.5 0.5 = Inl TypeError
   \<and> animation (currentAction
        ((newCharacter True 1)
           \<lparr>currentAction := \<lparr>animation = Some ''Sit'', direction = Left, timestamp = 3\<rparr>\<rparr>))
       \<notin> Some ` set (getAnimationNames (loadCharacter [''Relax'', ''Interact'', ''Move'']
            ((newCharacter True 1)
              \<lparr>currentAction := \<lparr>animation = Some ''Sit'', direction = Left, timestamp = 3\<rparr>\<rparr>)))
   \<and> currentAction (load True [''Relax'', ''Interact'', ''Move''] 0.5
        \<lparr>now = 10, innerWidth = 1000, innerHeight = 800, offsetWidth = 200,
         offsetHeight = 200, canvasRectX = 0, canvasRectY = 0, canvasWidth = 400,
         canvasHeight = 400, readPixelAlpha = clearedPixels\<rparr>
        ((newCharacter True 1)
           \<lparr>currentAction := \<lparr>animation = Some ''Sit'', direction = Left, timestamp = 3\<rparr>\<rparr>))
      = \<lparr>animation = Some ''Relax'', direction = Left, timestamp = 0\<rparr>"
  using unknown_animation_throws_and_load_resets[of
      "\<lparr>animation = Some ''Sit'', direction = Left, timestamp = 3\<rparr>"
      "loadCharacter [''Relax'', ''Interact'', ''Move''] (newCharacter True 1)"
      "0.5" "0.5" "[''Relax'', ''Interact'', ''Move'']" "0.5"
      "\<lparr>now = 10, innerWidth = 1000, innerHeight = 800, offsetWidth = 200,
         offsetHeight = 200, canvasRectX = 0, canvasRectY = 0, canvasWidth = 400,
         canvasHeight = 400, readPixelAlpha = clearedPixels\<rparr>"
      "(newCharacter True 1)
           \<lparr>currentAction := \<lparr>animation = Some ''Sit'', direction = Left, timestamp = 3\<rparr>\<rparr>"]
  by (simp add: load_def loadCharacter_def findAnimation_def newCharacter_def
      getAnimationNames_def table_defs Let_def)

text \<open>A vehicle whose current animation has been set to \<open>Sit\<close>: the name has index \<open>-1\<close>,
  \<open>nextAction\<close> throws, and the run ends in the exception instead of an action \<open>Relax\<close>.\<close>

theorem unknown_animation_counterexample:
  "indexOf (map Some (getAnimationNames
       (loadCharacter [''Relax'', ''Interact'', ''Move''] (newCharacter True 1)))) (Some ''Sit'')
     = - 1
   \<and> nextAction (loadCharacter [''Relax'', ''Interact'', ''Move''] (newCharacter True 1))
        \<lparr>animation = Some ''Sit'', direction = Right, timestamp = 0\<rparr> 0.5 0.5 = Inl TypeError
   \<and> run [PlayAnimation ''Sit'', Complete 0.5 0.5]
        (loadCharacter [''Relax'', ''Interact'', ''Move''] (newCharacter True 1))
      = Inl TypeError"
  by (simp add: loadCharacter_def findAnimation_def newCharacter_def playAnimation_def
      complete_def nextAction_def getAnimationNames_def getAnimationMarkov_def table_defs
      arrayGet_def Let_def)

subsection \<open>The \<open>Interact\<close> column\<close>

lemma pickLoop_ge: "pickLoop r ps i c = Some k \<Longrightarrow> i \<le> k"
  by (auto simp: pickLoop_Some_iff)

lemma randomPick_zero_second:
  "randomPick r (a # 0 # rest) \<noteq> Inr (Suc 0)"
proof
  assume "randomPick r (a # 0 # rest) = Inr (Suc 0)"
  then have "pickLoop r (a # 0 # rest) 0 0 = Some (Suc 0)"
    by (cases "pickLoop r (a # 0 # rest) 0 0") (simp_all add: randomPick_def del: pickLoop.simps)
  then have "pickLoop r rest (Suc (Suc 0)) a = Some (Suc 0)"
    by (simp add: Let_def split: if_splits)
  from pickLoop_ge[OF this] show False by simp
qed

lemma interact_column:
  "indexOf (getAnimationNames st) ''Interact'' = 1"
  "row \<in> set (getAnimationMarkov st) \<Longrightarrow> \<exists>a rest. row = a # 0 # rest"
  by (auto simp: getAnimationNames_def getAnimationMarkov_def table_defs split: if_splits)

lemma interact_index:
  assumes "arrayGet (getAnimationNames st) (int k) = Some ''Interact''"
  shows "k = Suc 0"
proof -
  from assms have k: "k < length (getAnimationNames st)"
    and v: "getAnimationNames st ! k = ''Interact''"
    by (auto simp: arrayGet_def split: if_splits)
  from k have "k < 6" by (auto simp: getAnimationNames_def table_defs split: if_splits)
  then consider "k = 0" | "k = 1" | "k = 2" | "k = 3" | "k = 4" | "k = 5" by linarith
  then show ?thesis
    using k v by cases (auto simp: getAnimationNames_def table_defs split: if_splits)
qed

lemma nextAction_never_Interact:
  assumes "nextAction st current r1 r2 = Inr act"
  shows "animation act \<noteq> Some ''Interact''"
proof
  assume i: "animation act = Some ''Interact''"
  from assms obtain row k where row:
    "arrayGet (getAnimationMarkov st)
       (indexOf (map Some (getAnimationNames st)) (animation current)) = Some row"
    and k: "randomPick r1 row = Inr k"
    and a: "animation act = arrayGet (getAnimationNames st) (int k)"
    by (rule nextAction_InrE)
  from a i have "k = Suc 0" by (simp add: interact_index)
  moreover from row have "row \<in> set (getAnimationMarkov st)" by (rule arrayGet_Some_mem)
  then obtain a0 rest where "row = a0 # 0 # rest" using interact_column(2) by blast
  ultimately show False using k randomPick_zero_second by simp
qed

lemma handlers_animation:
  "animation (currentAction (handleMouseMove e st)) = animation (currentAction st)"
  "animation (currentAction (handleDrag e st)) = animation (currentAction st)"
  "animation (currentAction (handleDragEnd st)) = animation (currentAction st)"
  "animation (currentAction (setAllowInteract b st)) = animation (currentAction st)"
  "animation (currentAction (handleDragStart e st)) = Some ''Relax''
     \<or> animation (currentAction (handleDragStart e st)) = animation (currentAction st)"
  "animation (currentAction (load c animations random env st)) = Some ''Relax''
     \<or> animation (currentAction (load c animations random env st)) = animation (currentAction st)"
  by (auto simp: handleMouseMove_def handleDrag_def handleDragEnd_def setAllowInteract_def
      handleDragStart_def load_def loadCharacter_def Let_def split: option.splits)

text \<open>
  C10 (as amended). In the active name list of every character \<open>Interact\<close> is the entry at
  index 1, and every row of the active transition table has 0 in that column; this covers
  the four tables. \<open>nextAction\<close> never returns an action with animation \<open>Interact\<close>, for any
  current action and any draws. Among all handlers, an animation other than \<open>Interact\<close>
  becomes \<open>Interact\<close> only by the click handler, by \<open>playAnimation\<close> called with \<open>Interact\<close>, or
  by restoring a saved session whose action is \<open>Interact\<close>.
\<close>

theorem interact_never_sampled:
  "indexOf (getAnimationNames st) ''Interact'' = 1
   \<and> (\<forall>row \<in> set (getAnimationMarkov st). arrayGet row 1 = Some 0)
   \<and> (nextAction st current random1 random2 = Inr act \<longrightarrow>
        animation act \<noteq> Some ''Interact'')
   \<and> (handleEvent ev st = Inr st'
       \<and> animation (currentAction st) \<noteq> Some ''Interact''
       \<and> animation (currentAction st') = Some ''Interact'' \<longrightarrow>
        ev = Click \<or> ev = PlayAnimation ''Interact''
        \<or> (\<exists>p saved. ev = Restore (Some (p, saved))
              \<and> animation saved = Some ''Interact''))"
proof (intro conjI ballI impI)
  show "indexOf (getAnimationNames st) ''Interact'' = 1" by (rule interact_column(1))
next
  fix row assume "row \<in> set (getAnimationMarkov st)"
  then obtain a rest where "row = a # 0 # rest" using interact_column(2) by blast
  then show "arrayGet row 1 = Some 0" by (simp add: arrayGet_def)
next
  assume "nextAction st current random1 random2 = Inr act"
  then show "animation act \<noteq> Some ''Interact''" by (rule nextAction_never_Interact)
next
  assume a: "handleEvent ev st = Inr st'
       \<and> animation (currentAction st) \<noteq> Some ''Interact''
       \<and> animation (currentAction st') = Some ''Interact''"
  then have h: "handleEvent ev st = Inr st'"
    and before: "animation (currentAction st) \<noteq> Some ''Interact''"
    and after: "animation (currentAction st') = Some ''Interact''" by simp_all
  show "ev = Click \<or> ev = PlayAnimation ''Interact''
        \<or> (\<exists>p saved. ev = Restore (Some (p, saved))
              \<and> animation saved = Some ''Interact'')"
  proof (cases ev)
    case (Render env)
    with h before after show ?thesis by (auto simp: render_keeps)
  next
    case (Complete r1 r2)
    with h obtain act where "nextAction st (currentAction st) r1 r2 = Inr act"
      and "st' = st\<lparr>currentAction := act\<rparr>"
      by (auto simp: complete_def split: sum.splits)
    with after nextAction_never_Interact show ?thesis by auto
  next
    case (MouseMove e)
    with h before after show ?thesis by (auto simp: handlers_animation)
  next
    case Click
    then show ?thesis by simp
  next
    case (DragStart e)
    with h before after handlers_animation(5)[of e st] show ?thesis by auto
  next
    case (Drag e)
    with h before after show ?thesis by (auto simp: handlers_animation)
  next
    case DragEnd
    with h before after show ?thesis by (auto simp: handlers_animation)
  next
    case (PlayAnimation name)
    with h after show ?thesis by (auto simp: playAnimation_def)
  next
    case (SetAllowInteract b)
    with h before after show ?thesis by (auto simp: handlers_animation)
  next
    case (Load c animations random env)
    with h before after handlers_animation(6)[of c animations random env st]
    show ?thesis by auto
  next
    case (Restore saved)
    with h before after show ?thesis
      by (cases saved) (auto simp: loadFromSessionStorage_def)
  qed
qed

theorem interact_never_sampled_witness:
  "[0.5, 0.0, 0.2, 0.1, 0.1, 0.1] \<in> set (getAnimationMarkov (newCharacter True 1))
   \<and> arrayGet [0.5, 0.0, 0.2, 0.1, 0.1, 0.1 :: real] 1 = Some 0
   \<and> nextAction (newCharacter True 1)
        \<lparr>animation = Some ''Relax'', direction = Right, timestamp = 2\<rparr> 0.5 0.5
      = Inr \<lparr>animation = Some ''Relax'', direction = Right, timestamp = 0\<rparr>
   \<and> Some ''Relax'' \<noteq> Some ''Interact''
   \<and> handleEvent Click (loadCharacter ANIMATION_NAMES (newCharacter True 1))
      = Inr ((loadCharacter ANIMATION_NAMES (newCharacter True 1))
              \<lparr>currentAction := \<lparr>animation = Some ''Interact'', direction = Right, timestamp = 0\<rparr>\<rparr>)
   \<and> animation (currentAction (loadCharacter ANIMATION_NAMES (newCharacter True 1)))
      \<noteq> Some ''Interact''"
  using interact_never_sampled[of "newCharacter True 1"
      "\<lparr>animation = Some ''Relax'', direction = Right, timestamp = 2\<rparr>" "0.5" "0.5"
      "\<lparr>animation = Some ''Relax'', direction = Right, timestamp = 0\<rparr>" Click
      "(newCharacter True 1)"]
    interact_never_sampled[of "loadCharacter ANIMATION_NAMES (newCharacter True 1)"
      "\<lparr>animation = Some ''Relax'', direction = Right, timestamp = 2\<rparr>" "0.5" "0.5"
      "\<lparr>animation = Some ''Relax'', direction = Right, timestamp = 0\<rparr>" Click
      "(loadCharacter ANIMATION_NAMES (newCharacter True 1))
              \<lparr>currentAction := \<lparr>animation = Some ''Interact'', direction = Right, timestamp = 0\<rparr>\<rparr>"]
  by (simp add: newCharacter_def loadCharacter_def findAnimation_def handleCanvasClick_def
      nextAction_def getAnimationNames_def getAnimationMarkov_def table_defs arrayGet_def
      randomPick_def Let_def)

text \<open>\<open>playAnimation\<close> makes \<open>Interact\<close> current without a click.\<close>

theorem interact_by_playAnimation_counterexample:
  "animation (currentAction (loadCharacter ANIMATION_NAMES (newCharacter True 1)))
     \<noteq> Some ''Interact''
   \<and> handleEvent (PlayAnimation ''Interact'')
        (loadCharacter ANIMATION_NAMES (newCharacter True 1))
      = Inr ((loadCharacter ANIMATION_NAMES (newCharacter True 1))
              \<lparr>currentAction := \<lparr>animation = Some ''Interact'', direction = Right, timestamp = 0\<rparr>\<rparr>)
   \<and> PlayAnimation ''Interact'' \<noteq> Click"
  by (simp add: newCharacter_def loadCharacter_def findAnimation_def playAnimation_def
      table_defs Let_def)

subsection \<open>The physics step, axis by axis\<close>

lemma update_x:
  "vec_x (velocity (updateVelocityAndPosition delta st))
     = clampVelocity (snapVelocity (vec_x (velocity st) * DRAG))"
  "vec_x (position (updateVelocityAndPosition delta st))
     = vec_x (position st) + clampVelocity (snapVelocity (vec_x (velocity st) * DRAG)) * delta"
  by (simp_all add: updateVelocityAndPosition_def Let_def)


lemma collision_x:
  "vec_x (position (windowBoundsCollision maxX maxY t))
     = (if vec_x (position t) < 0 then 0
        else if vec_x (position t) > maxX then maxX else vec_x (position t))"
  "vec_x (velocity (windowBoundsCollision maxX maxY t))
     = (if vec_x (position t) < 0 \<or> vec_x (position t) > maxX
        then - vec_x (velocity t) * BOUNCE_DAMPING else vec_x (velocity t))"
  by (simp_all add: windowBoundsCollision_def Let_def)


subsection \<open>Bouncing off the walls\<close>

text \<open>The horizontal velocity with which a step moves the position, from the velocity it
  starts with: multiplied by 0.98, set to 0 below 5, cut at 1000.\<close>

lemma drag_snap_clamp:
  "clampVelocity (snapVelocity (v * DRAG))
     = (if \<bar>v * 0.98\<bar> < 5 then 0
        else if v * 0.98 < - 1000 then - 1000
        else if v * 0.98 > 1000 then 1000 else v * 0.98)"
  by (simp add: clampVelocity_def snapVelocity_def DRAG_def MIN_VELOCITY_def MAX_VELOCITY_def)

text \<open>
  C5 (as amended). Let a physics step start with \<open>velocity.x = v0\<close>. The step first multiplies
  the velocity by the drag 0.98, sets it to 0 when its magnitude is below 5 and cuts it at
  1000; call the result \<open>v1\<close>. If \<open>v0 < 0\<close> and the position update of the step drives
  \<open>position.x\<close> below 0, the step ends with \<open>position.x = 0\<close> and
  \<open>velocity.x = - v1 * 0.7\<close>, that is \<open>- 0.98 * v0 * 0.7\<close> when \<open>5 \<le> 0.98 * \<bar>v0\<bar> \<le> 1000\<close>, 0
  below that range and 700 above it. Symmetrically, in a window at least as wide as the
  canvas, if \<open>v0 > 0\<close> and the update drives \<open>position.x\<close> above the right edge \<open>maxX\<close>, the
  step ends with \<open>position.x = maxX\<close> and \<open>velocity.x = - v1 * 0.7\<close>.
\<close>

theorem wall_bounce:
  assumes "vec_x (velocity st) = v0"
  shows "(v0 < 0 \<and> vec_x (position (updateVelocityAndPosition delta st)) < 0 \<longrightarrow>
         vec_x (position (applyPhysics delta maxX maxY st)) = 0
         \<and> vec_x (velocity (applyPhysics delta maxX maxY st))
             = (if \<bar>v0 * 0.98\<bar> < 5 then 0
                else if v0 * 0.98 < - 1000 then 1000 * 0.7
                else - (v0 * 0.98) * 0.7))
    \<and> (0 < v0 \<and> 0 \<le> maxX \<and> vec_x (position (updateVelocityAndPosition delta st)) > maxX \<longrightarrow>
         vec_x (position (applyPhysics delta maxX maxY st)) = maxX
         \<and> vec_x (velocity (applyPhysics delta maxX maxY st))
             = (if \<bar>v0 * 0.98\<bar> < 5 then 0
                else if v0 * 0.98 > 1000 then - 1000 * 0.7
                else - (v0 * 0.98) * 0.7))
    \<and> vec_x (position (updateVelocityAndPosition delta st))
         = vec_x (position st)
           + (if \<bar>v0 * 0.98\<bar> < 5 then 0
              else if v0 * 0.98 < - 1000 then - 1000
              else if v0 * 0.98 > 1000 then 1000 else v0 * 0.98) * delta"
proof -
  have v1: "vec_x (velocity (updateVelocityAndPosition delta st))
      = (if \<bar>v0 * 0.98\<bar> < 5 then 0
         else if v0 * 0.98 < - 1000 then - 1000
         else if v0 * 0.98 > 1000 then 1000 else v0 * 0.98)"
    using assms by (simp only: update_x drag_snap_clamp)
  have p1: "vec_x (position (updateVelocityAndPosition delta st))
      = vec_x (position st)
        + (if \<bar>v0 * 0.98\<bar> < 5 then 0
           else if v0 * 0.98 < - 1000 then - 1000
           else if v0 * 0.98 > 1000 then 1000 else v0 * 0.98) * delta"
    using assms by (simp only: update_x drag_snap_clamp)
  have left: "vec_x (position (applyPhysics delta maxX maxY st)) = 0
         \<and> vec_x (velocity (applyPhysics delta maxX maxY st))
             = (if \<bar>v0 * 0.98\<bar> < 5 then 0
                else if v0 * 0.98 < - 1000 then 1000 * 0.7
                else - (v0 * 0.98) * 0.7)"
    if "v0 < 0" and "vec_x (position (updateVelocityAndPosition delta st)) < 0"
    using that v1 by (simp add: applyPhysics_def collision_x BOUNCE_DAMPING_def)
  have right: "vec_x (position (applyPhysics delta maxX maxY st)) = maxX
         \<and> vec_x (velocity (applyPhysics delta maxX maxY st))
             = (if \<bar>v0 * 0.98\<bar> < 5 then 0
                else if v0 * 0.98 > 1000 then - 1000 * 0.7
                else - (v0 * 0.98) * 0.7)"
    if "0 < v0" and "0 \<le> maxX" and "vec_x (position (updateVelocityAndPosition delta st)) > maxX"
    using that v1 by (simp add: applyPhysics_def collision_x BOUNCE_DAMPING_def)
  from left right p1 show ?thesis by blast
qed

theorem wall_bounce_witness:
  "vec_x (velocity ((newCharacter True 1)\<lparr>position := \<lparr>vec_x = 1, vec_y = 300\<rparr>,
                              velocity := \<lparr>vec_x = - 100, vec_y = 0\<rparr>\<rparr>)) = - 100
   \<and> vec_x (position (updateVelocityAndPosition (1/10)
      ((newCharacter True 1)\<lparr>position := \<lparr>vec_x = 1, vec_y = 300\<rparr>,
                              velocity := \<lparr>vec_x = - 100, vec_y = 0\<rparr>\<rparr>))) < 0
   \<and> vec_x (position (applyPhysics (1/10) 800 600
      ((newCharacter True 1)\<lparr>position := \<lparr>vec_x = 1, vec_y = 300\<rparr>,
                              velocity := \<lparr>vec_x = - 100, vec_y = 0\<rparr>\<rparr>))) = 0
   \<and> vec_x (velocity (applyPhysics (1/10) 800 600
      ((newCharacter True 1)\<lparr>position := \<lparr>vec_x = 1, vec_y = 300\<rparr>,
                              velocity := \<lparr>vec_x = - 100, vec_y = 0\<rparr>\<rparr>))) = 686/10
   \<and> vec_x (velocity ((newCharacter True 1)\<lparr>position := \<lparr>vec_x = 799, vec_y = 300\<rparr>,
                              velocity := \<lparr>vec_x = 100, vec_y = 0\<rparr>\<rparr>)) = 100
   \<and> vec_x (position (updateVelocityAndPosition (1/10)
      ((newCharacter True 1)\<lparr>position := \<lparr>vec_x = 799, vec_y = 300\<rparr>,
                              velocity := \<lparr>vec_x = 100, vec_y = 0\<rparr>\<rparr>))) > 800
   \<and> vec_x (position (applyPhysics (1/10) 800 600
      ((newCharacter True 1)\<lparr>position := \<lparr>vec_x = 799, vec_y = 300\<rparr>,
                              velocity := \<lparr>vec_x = 100, vec_y = 0\<rparr>\<rparr>))) = 800
   \<and> vec_x (velocity (applyPhysics (1/10) 800 600
      ((newCharacter True 1)\<lparr>position := \<lparr>vec_x = 799, vec_y = 300\<rparr>,
                              velocity := \<lparr>vec_x = 100, vec_y = 0\<rparr>\<rparr>))) = - 686/10"
proof -
  let ?l = "(newCharacter True 1)\<lparr>position := \<lparr>vec_x = 1, vec_y = 300\<rparr>,
                              velocity := \<lparr>vec_x = - 100, vec_y = 0\<rparr>\<rparr>"
  let ?r = "(newCharacter True 1)\<lparr>position := \<lparr>vec_x = 799, vec_y = 300\<rparr>,
                              velocity := \<lparr>vec_x = 100, vec_y = 0\<rparr>\<rparr>"
  have vl: "vec_x (velocity ?l) = - 100" and vr: "vec_x (velocity ?r) = 100"
    and xl: "vec_x (position ?l) = 1" and xr: "vec_x (position ?r) = 799"
    by simp_all
  note wl = wall_bounce[OF vl, where delta = "1/10" and maxX = 800 and maxY = 600]
  note wr = wall_bounce[OF vr, where delta = "1/10" and maxX = 800 and maxY = 600]
  from wl xl have pl: "vec_x (position (updateVelocityAndPosition (1/10) ?l)) < 0"
    by (simp only: ) simp
  from wr xr have pr: "vec_x (position (updateVelocityAndPosition (1/10) ?r)) > 800"
    by (simp only: ) simp
  from wl pl have l: "vec_x (position (applyPhysics (1/10) 800 600 ?l)) = 0"
    "vec_x (velocity (applyPhysics (1/10) 800 600 ?l)) = 686/10"
    by simp_all
  from wr pr have r: "vec_x (position (applyPhysics (1/10) 800 600 ?r)) = 800"
    "vec_x (velocity (applyPhysics (1/10) 800 600 ?r)) = - 686/10"
    by simp_all
  from vl vr pl pr l r show ?thesis by (intro conjI)
qed

text \<open>With \<open>v0\<close> the velocity the step starts with, the result is not \<open>- v0 * 0.7\<close>: a step of
  0.1 s from \<open>x = 1\<close> with velocity \<open>- 100\<close> moves at \<open>- 98\<close>, crosses the left edge and ends with
  velocity 68.6, not 70.\<close>

theorem wall_bounce_counterexample:
  "vec_x (velocity ((newCharacter True 1)\<lparr>position := \<lparr>vec_x = 1, vec_y = 300\<rparr>,
                              velocity := \<lparr>vec_x = - 100, vec_y = 0\<rparr>\<rparr>)) = - 100
   \<and> vec_x (position (updateVelocityAndPosition (1/10)
      ((newCharacter True 1)\<lparr>position := \<lparr>vec_x = 1, vec_y = 300\<rparr>,
                              velocity := \<lparr>vec_x = - 100, vec_y = 0\<rparr>\<rparr>))) < 0
   \<and> vec_x (position (applyPhysics (1/10) 800 600
      ((newCharacter True 1)\<lparr>position := \<lparr>vec_x = 1, vec_y = 300\<rparr>,
                              velocity := \<lparr>vec_x = - 100, vec_y = 0\<rparr>\<rparr>))) = 0
   \<and> vec_x (velocity (applyPhysics (1/10) 800 600
      ((newCharacter True 1)\<lparr>position := \<lparr>vec_x = 1, vec_y = 300\<rparr>,
                              velocity := \<lparr>vec_x = - 100, vec_y = 0\<rparr>\<rparr>))) = 686/10
   \<and> vec_x (velocity (applyPhysics (1/10) 800 600
      ((newCharacter True 1)\<lparr>position := \<lparr>vec_x = 1, vec_y = 300\<rparr>,
                              velocity := \<lparr>vec_x = - 100, vec_y = 0\<rparr>\<rparr>)))
      \<noteq> - (- 100) * BOUNCE_DAMPING"
proof -
  let ?l = "(newCharacter True 1)\<lparr>position := \<lparr>vec_x = 1, vec_y = 300\<rparr>,
                              velocity := \<lparr>vec_x = - 100, vec_y = 0\<rparr>\<rparr>"
  have v0: "vec_x (velocity ?l) = - 100" by simp
  have u: "vec_x (velocity (updateVelocityAndPosition (1/10) ?l)) = - 98"
    "vec_x (position (updateVelocityAndPosition (1/10) ?l)) = - 88/10"
    by (simp_all add: update_x clampVelocity_def snapVelocity_def DRAG_def
        MIN_VELOCITY_def MAX_VELOCITY_def)
  from u have p: "vec_x (position (updateVelocityAndPosition (1/10) ?l)) < 0" by simp
  from u have a: "vec_x (position (applyPhysics (1/10) 800 600 ?l)) = 0"
    "vec_x (velocity (applyPhysics (1/10) 800 600 ?l)) = 686/10"
    by (simp_all add: applyPhysics_def collision_x BOUNCE_DAMPING_def)
  from a(2) have n: "vec_x (velocity (applyPhysics (1/10) 800 600 ?l))
      \<noteq> - (- 100) * BOUNCE_DAMPING"
    by (simp add: BOUNCE_DAMPING_def)
  from v0 p a n show ?thesis by (intro conjI)
qed

subsection \<open>Falling\<close>

lemma snapVelocity_mono: "v \<le> w \<Longrightarrow> snapVelocity v \<le> snapVelocity w"
  by (auto simp: snapVelocity_def MIN_VELOCITY_def)

lemma clampVelocity_mono: "v \<le> w \<Longrightarrow> clampVelocity v \<le> clampVelocity w"
  by (auto simp: clampVelocity_def MAX_VELOCITY_def)

lemma fall_velocity_mono:
  assumes "v \<le> w"
  shows "clampVelocity (snapVelocity ((v + GRAVITY * dt) * DRAG))
       \<le> clampVelocity (snapVelocity ((w + GRAVITY * dt) * DRAG))"
proof -
  from assms have "(v + GRAVITY * dt) * DRAG \<le> (w + GRAVITY * dt) * DRAG"
    by (simp add: DRAG_def)
  then show ?thesis by (intro clampVelocity_mono snapVelocity_mono)
qed




subsection \<open>Falling, frame by frame\<close>



















subsection \<open>Dragging\<close>

lemma render_dragging:
  assumes "isDragging st"
  shows "velocity (render env st) = velocity st"
    and "dragStartRelativeX (render env st) = dragStartRelativeX st"
    and "dragStartRelativeY (render env st) = dragStartRelativeY st"
    and "animation (currentAction st) \<noteq> Some ''Move'' \<Longrightarrow>
          position (render env st) = position st"
  using assms by (simp_all add: render_def Let_def hitTest_keeps moveCanvas_keeps)

lemma handleDrag_dragging:
  assumes "isDragging st"
  shows "position (handleDrag e st)
       = \<lparr>vec_x = clientX e - dragStartRelativeX st, vec_y = clientY e - dragStartRelativeY st\<rparr>"
    and "isDragging (handleDrag e st)"
    and "dragStartRelativeX (handleDrag e st) = dragStartRelativeX st"
    and "dragStartRelativeY (handleDrag e st) = dragStartRelativeY st"
    and "animation (currentAction (handleDrag e st)) = animation (currentAction st)"
  using assms by (simp_all add: handleDrag_def Let_def split: option.splits)

text \<open>A frame of a dragged character leaves the velocity and \<open>position.y\<close> alone, and moves
  \<open>position.x\<close> only when the animation is \<open>Move\<close>.\<close>

lemma render_dragging_position:
  assumes "isDragging st"
  shows "vec_y (position (render env st)) = vec_y (position st)"
    and "vec_x (position (render env st)) =
        (if animation (currentAction st) = Some ''Move''
         then (if direction (currentAction st) = Left
               then max 0 (vec_x (position st) - 30 * (now env - lastFrameTime st))
               else min (innerWidth env - offsetWidth env)
                      (vec_x (position st) + 30 * (now env - lastFrameTime st)))
         else vec_x (position st))"
  using assms
  by (auto simp: render_def Let_def hitTest_keeps moveCanvas_def MOVING_SPEED_def)

text \<open>What the events of a drag in progress keep.\<close>

lemma duringDrag_keeps:
  assumes "handleEvent ev st = Inr st1" and "duringDrag ev" and "isDragging st"
  shows "isDragging st1 \<and> dragStartRelativeX st1 = dragStartRelativeX st
    \<and> dragStartRelativeY st1 = dragStartRelativeY st"
proof (cases ev)
  case (Render env)
  with assms show ?thesis by (auto simp: render_keeps render_dragging)
next
  case (Complete r1 r2)
  with assms show ?thesis by (auto simp: complete_def split: sum.splits)
next
  case (Drag e)
  with assms show ?thesis by (auto simp: handleDrag_dragging)
qed (use assms in \<open>auto simp: handleMouseMove_def handleCanvasClick_def playAnimation_def
      setAllowInteract_def\<close>)

lemma run_duringDrag_keeps:
  "run evs st = Inr st' \<Longrightarrow> \<forall>ev \<in> set evs. duringDrag ev \<Longrightarrow> isDragging st \<Longrightarrow>
   isDragging st' \<and> dragStartRelativeX st' = dragStartRelativeX st
    \<and> dragStartRelativeY st' = dragStartRelativeY st"
proof (induction evs arbitrary: st)
  case Nil
  then show ?case by simp
next
  case (Cons ev evs)
  from Cons.prems(1) obtain st1 where st1: "handleEvent ev st = Inr st1"
    and rest: "run evs st1 = Inr st'"
    by (auto split: sum.splits)
  from Cons.prems(2) have ev: "duringDrag ev" and evs: "\<forall>ev \<in> set evs. duringDrag ev"
    by simp_all
  from duringDrag_keeps[OF st1 ev Cons.prems(3)] Cons.IH[OF rest evs] show ?case by simp
qed

lemma betweenDragMoves_duringDrag: "betweenDragMoves ev \<Longrightarrow> duringDrag ev"
  by (cases ev) simp_all

text \<open>Between drag-moves the position changes in frames with animation \<open>Move\<close> only.\<close>

lemma betweenDragMoves_position:
  assumes "handleEvent ev st = Inr st1" and "betweenDragMoves ev" and "isDragging st"
    and "case ev of Render env \<Rightarrow> animation (currentAction st) \<noteq> Some ''Move'' | _ \<Rightarrow> True"
  shows "position st1 = position st"
proof (cases ev)
  case (Render env)
  with assms show ?thesis by (auto simp: render_dragging)
next
  case (Complete r1 r2)
  with assms show ?thesis by (auto simp: complete_def split: sum.splits)
qed (use assms in \<open>auto simp: handleMouseMove_def handleCanvasClick_def playAnimation_def
      setAllowInteract_def\<close>)

lemma run_betweenDragMoves:
  "run evs st = Inr st' \<Longrightarrow> \<forall>ev \<in> set evs. betweenDragMoves ev \<Longrightarrow> isDragging st \<Longrightarrow>
   framesAvoidMove evs st \<Longrightarrow> isDragging st' \<and> position st' = position st"
proof (induction evs arbitrary: st)
  case Nil
  then show ?case by simp
next
  case (Cons ev evs)
  from Cons.prems(1) obtain st1 where st1: "handleEvent ev st = Inr st1"
    and rest: "run evs st1 = Inr st'"
    by (auto split: sum.splits)
  from Cons.prems(2) have ev: "betweenDragMoves ev"
    and evs: "\<forall>ev \<in> set evs. betweenDragMoves ev" by simp_all
  from Cons.prems(4) st1
  have frame: "case ev of Render env \<Rightarrow> animation (currentAction st) \<noteq> Some ''Move'' | _ \<Rightarrow> True"
    and avoid: "framesAvoidMove evs st1" by simp_all
  from duringDrag_keeps[OF st1 betweenDragMoves_duringDrag[OF ev] Cons.prems(3)]
  have d1: "isDragging st1" by simp
  from betweenDragMoves_position[OF st1 ev Cons.prems(3) frame] Cons.IH[OF rest evs d1 avoid]
  show ?case by simp
qed

text \<open>
  C4 (as amended). Every frame rendered while \<open>isDragging\<close> holds skips the physics step: it
  leaves the velocity and \<open>position.y\<close> as they are, whatever the gravity constant, and changes
  \<open>position.x\<close> in the locomotion block only, which does not test \<open>isDragging\<close>: with animation
  \<open>Move\<close> the frame shifts \<open>position.x\<close> by 30 times the frame time in the facing direction, up
  to the edge; with any other animation it leaves it alone. Every drag-move puts the
  character at pointer minus drag anchor. So after any events of a drag in progress (frames,
  pointer moves, completions of the animation, clicks, calls of \<open>playAnimation\<close> and
  \<open>setAllowInteract\<close>, drag-moves) the character is still dragged and is at the position
  derived from the last drag-move, provided that no frame since that drag-move was rendered
  with animation \<open>Move\<close>.
\<close>

theorem drag_overrides_physics:
  assumes "isDragging st"
  shows "velocity (render env st) = velocity st
    \<and> vec_y (position (render env st)) = vec_y (position st)
    \<and> vec_x (position (render env st)) =
        (if animation (currentAction st) = Some ''Move''
         then (if direction (currentAction st) = Left
               then max 0 (vec_x (position st) - 30 * (now env - lastFrameTime st))
               else min (innerWidth env - offsetWidth env)
                      (vec_x (position st) + 30 * (now env - lastFrameTime st)))
         else vec_x (position st))
    \<and> position (handleDrag e st)
        = \<lparr>vec_x = clientX e - dragStartRelativeX st,
           vec_y = clientY e - dragStartRelativeY st\<rparr>
    \<and> ((\<forall>ev \<in> set pre. duringDrag ev) \<and> (\<forall>ev \<in> set post. betweenDragMoves ev)
        \<and> run pre st = Inr mid \<and> run post (handleDrag e mid) = Inr st'
        \<and> framesAvoidMove post (handleDrag e mid) \<longrightarrow>
         isDragging st'
         \<and> position st'
             = \<lparr>vec_x = clientX e - dragStartRelativeX st,
                vec_y = clientY e - dragStartRelativeY st\<rparr>)"
proof -
  have runs: "isDragging st'
         \<and> position st'
             = \<lparr>vec_x = clientX e - dragStartRelativeX st,
                vec_y = clientY e - dragStartRelativeY st\<rparr>"
    if h: "(\<forall>ev \<in> set pre. duringDrag ev) \<and> (\<forall>ev \<in> set post. betweenDragMoves ev)
        \<and> run pre st = Inr mid \<and> run post (handleDrag e mid) = Inr st'
        \<and> framesAvoidMove post (handleDrag e mid)"
  proof -
    from h have pre: "\<forall>ev \<in> set pre. duringDrag ev" "run pre st = Inr mid"
      and post: "\<forall>ev \<in> set post. betweenDragMoves ev" "run post (handleDrag e mid) = Inr st'"
        "framesAvoidMove post (handleDrag e mid)" by blast+
    from run_duringDrag_keeps[OF pre(2,1) assms]
    have mid: "isDragging mid" "dragStartRelativeX mid = dragStartRelativeX st"
      "dragStartRelativeY mid = dragStartRelativeY st" by simp_all
    note d = handleDrag_dragging(1,2)[OF mid(1), of e]
    from run_betweenDragMoves[OF post(2,1) d(2) post(3)] d(1) mid(2,3)
    show ?thesis by simp
  qed
  from render_dragging(1)[OF assms, of env] render_dragging_position[OF assms, of env]
    handleDrag_dragging(1)[OF assms, of e] runs
  show ?thesis by blast
qed

lemma nextAction_relax_move:
  assumes "\<not> isVehicle st" and "hasSpecialAnimation st"
    and "animation current = Some ''Relax''"
  shows "nextAction st current 0.55 random2 =
        Inr \<lparr>animation = Some ''Move'',
             direction = (if random2 < 0.4 then turnDirection (direction current)
                          else direction current),
             timestamp = 0\<rparr>"
  using assms
  by (simp add: nextAction_def getAnimationNames_def getAnimationMarkov_def
      ANIMATION_NAMES_def ANIMATION_MARKOV_def arrayGet_def randomPick_def)

lemma nextAction_move_relax:
  assumes "\<not> isVehicle st" and "hasSpecialAnimation st"
    and "animation current = Some ''Move''"
  shows "nextAction st current (1/10) random2 =
        Inr \<lparr>animation = Some ''Relax'', direction = direction current, timestamp = 0\<rparr>"
  using assms
  by (simp add: nextAction_def getAnimationNames_def getAnimationMarkov_def
      ANIMATION_NAMES_def ANIMATION_MARKOV_def arrayGet_def randomPick_def)

lemma handlers_keep_repertoire:
  "isVehicle (handleMouseMove e st) = isVehicle st"
  "hasSpecialAnimation (handleMouseMove e st) = hasSpecialAnimation st"
  "currentAction (handleMouseMove e st) = currentAction st"
  "isDragging (handleMouseMove e st) = isDragging st"
  "isVehicle (handleDrag e st) = isVehicle st"
  "hasSpecialAnimation (handleDrag e st) = hasSpecialAnimation st"
  "currentAction (handleDrag e st) = currentAction st"
  by (simp_all add: handleMouseMove_def handleDrag_def Let_def split: option.splits)

theorem drag_overrides_physics_witness:
  "isDragging (handleDragStart \<lparr>clientX = 410, clientY = 620, timeStamp = 0, button = Some 0\<rparr>
      ((loadCharacter ANIMATION_NAMES (newCharacter True 1))
         \<lparr>position := \<lparr>vec_x = 400, vec_y = 600\<rparr>\<rparr>))
   \<and> list_all duringDrag
        [MouseMove \<lparr>clientX = 420, clientY = 500, timeStamp = 8, button = Some 0\<rparr>,
         Complete 0.55 0.9,
         Render \<lparr>now = 1/10, innerWidth = 1000, innerHeight = 800, offsetWidth = 200,
                 offsetHeight = 200, canvasRectX = 0, canvasRectY = 0, canvasWidth = 400,
                 canvasHeight = 400, readPixelAlpha = clearedPixels\<rparr>]
   \<and> list_all betweenDragMoves
        [Complete (1/10) 0.5,
         MouseMove \<lparr>clientX = 450, clientY = 300, timeStamp = 24, button = Some 0\<rparr>,
         Render \<lparr>now = 2/10, innerWidth = 1000, innerHeight = 800, offsetWidth = 200,
                 offsetHeight = 200, canvasRectX = 0, canvasRectY = 0, canvasWidth = 400,
                 canvasHeight = 400, readPixelAlpha = clearedPixels\<rparr>]
   \<and> (\<exists>mid st'.
        run [MouseMove \<lparr>clientX = 420, clientY = 500, timeStamp = 8, button = Some 0\<rparr>,
             Complete 0.55 0.9,
             Render \<lparr>now = 1/10, innerWidth = 1000, innerHeight = 800, offsetWidth = 200,
                 offsetHeight = 200, canvasRectX = 0, canvasRectY = 0, canvasWidth = 400,
                 canvasHeight = 400, readPixelAlpha = clearedPixels\<rparr>]
          (handleDragStart \<lparr>clientX = 410, clientY = 620, timeStamp = 0, button = Some 0\<rparr>
            ((loadCharacter ANIMATION_NAMES (newCharacter True 1))
               \<lparr>position := \<lparr>vec_x = 400, vec_y = 600\<rparr>\<rparr>)) = Inr mid
      \<and> animation (currentAction mid) = Some ''Move''
      \<and> run [Complete (1/10) 0.5,
              MouseMove \<lparr>clientX = 450, clientY = 300, timeStamp = 24, button = Some 0\<rparr>,
              Render \<lparr>now = 2/10, innerWidth = 1000, innerHeight = 800, offsetWidth = 200,
                 offsetHeight = 200, canvasRectX = 0, canvasRectY = 0, canvasWidth = 400,
                 canvasHeight = 400, readPixelAlpha = clearedPixels\<rparr>]
          (handleDrag \<lparr>clientX = 450, clientY = 300, timeStamp = 16, button = Some 0\<rparr> mid)
          = Inr st'
      \<and> framesAvoidMove
             [Complete (1/10) 0.5,
              MouseMove \<lparr>clientX = 450, clientY = 300, timeStamp = 24, button = Some 0\<rparr>,
              Render \<lparr>now = 2/10, innerWidth = 1000, innerHeight = 800, offsetWidth = 200,
                 offsetHeight = 200, canvasRectX = 0, canvasRectY = 0, canvasWidth = 400,
                 canvasHeight = 400, readPixelAlpha = clearedPixels\<rparr>]
          (handleDrag \<lparr>clientX = 450, clientY = 300, timeStamp = 16, button = Some 0\<rparr> mid)
      \<and> isDragging st' \<and> position st' = \<lparr>vec_x = 440, vec_y = 280\<rparr>)"
proof -
  let ?st = "handleDragStart \<lparr>clientX = 410, clientY = 620, timeStamp = 0, button = Some 0\<rparr>
          ((loadCharacter ANIMATION_NAMES (newCharacter True 1))
             \<lparr>position := \<lparr>vec_x = 400, vec_y = 600\<rparr>\<rparr>)"
  let ?m1 = "\<lparr>clientX = 420, clientY = 500, timeStamp = 8, button = Some 0\<rparr>"
  let ?m2 = "\<lparr>clientX = 450, clientY = 300, timeStamp = 24, button = Some 0\<rparr>"
  let ?e = "\<lparr>clientX = 450, clientY = 300, timeStamp = 16, button = Some 0\<rparr>"
  let ?env1 = "\<lparr>now = 1/10, innerWidth = 1000, innerHeight = 800, offsetWidth = 200,
                 offsetHeight = 200, canvasRectX = 0, canvasRectY = 0, canvasWidth = 400,
                 canvasHeight = 400, readPixelAlpha = clearedPixels\<rparr>"
  let ?env2 = "\<lparr>now = 2/10, innerWidth = 1000, innerHeight = 800, offsetWidth = 200,
                 offsetHeight = 200, canvasRectX = 0, canvasRectY = 0, canvasWidth = 400,
                 canvasHeight = 400, readPixelAlpha = clearedPixels\<rparr>"
  let ?pre = "[MouseMove ?m1, Complete 0.55 0.9, Render ?env1]"
  let ?post = "[Complete (1/10) 0.5, MouseMove ?m2, Render ?env2]"
  have st: "isDragging ?st" "\<not> isVehicle ?st" "hasSpecialAnimation ?st"
    "animation (currentAction ?st) = Some ''Relax''"
    "dragStartRelativeX ?st = 10" "dragStartRelativeY ?st = 20"
    by (simp_all add: handleDragStart_def loadCharacter_def findAnimation_def newCharacter_def
        table_defs Let_def)
  let ?a = "handleMouseMove ?m1 ?st"
  let ?c1 = "?a\<lparr>currentAction :=
      \<lparr>animation = Some ''Move'', direction = direction (currentAction ?a), timestamp = 0\<rparr>\<rparr>"
  let ?mid = "render ?env1 ?c1"
  have a: "\<not> isVehicle ?a" "hasSpecialAnimation ?a" "animation (currentAction ?a) = Some ''Relax''"
    using st(2,3,4) by (simp_all add: handlers_keep_repertoire)
  from nextAction_relax_move[OF a, of "0.9"]
  have "nextAction ?a (currentAction ?a) 0.55 0.9
      = Inr \<lparr>animation = Some ''Move'', direction = direction (currentAction ?a), timestamp = 0\<rparr>"
    by simp
  then have c1: "complete 0.55 0.9 ?a = Inr ?c1" by (simp only: complete_def sum.case)
  have pre_run: "run ?pre ?st = Inr ?mid"
    by (simp only: run.simps handleEvent.simps c1 sum.case)
  have mid: "\<not> isVehicle ?mid" "hasSpecialAnimation ?mid"
    "animation (currentAction ?mid) = Some ''Move''"
    using a(1,2) by (simp_all add: render_keeps)
  let ?d = "handleDrag ?e ?mid"
  let ?c2 = "?d\<lparr>currentAction :=
      \<lparr>animation = Some ''Relax'', direction = direction (currentAction ?d), timestamp = 0\<rparr>\<rparr>"
  let ?st' = "render ?env2 (handleMouseMove ?m2 ?c2)"
  have d: "\<not> isVehicle ?d" "hasSpecialAnimation ?d" "animation (currentAction ?d) = Some ''Move''"
    using mid by (simp_all add: handlers_keep_repertoire)
  from nextAction_move_relax[OF d, of "0.5"]
  have "nextAction ?d (currentAction ?d) (1/10) 0.5
      = Inr \<lparr>animation = Some ''Relax'', direction = direction (currentAction ?d), timestamp = 0\<rparr>"
    by simp
  then have c2: "complete (1/10) 0.5 ?d = Inr ?c2" by (simp only: complete_def sum.case)
  have post_run: "run ?post ?d = Inr ?st'"
    by (simp only: run.simps handleEvent.simps c2 sum.case)
  have relax: "animation (currentAction (handleMouseMove ?m2 ?c2)) \<noteq> Some ''Move''"
    by (simp add: handlers_keep_repertoire)
  have avoid: "framesAvoidMove ?post ?d"
    by (simp only: framesAvoidMove.simps handleEvent.simps c2 sum.case event.case relax
        simp_thms)
  have classes: "\<forall>ev \<in> set ?pre. duringDrag ev" "\<forall>ev \<in> set ?post. betweenDragMoves ev"
    by simp_all
  from drag_overrides_physics[OF st(1), where pre = ?pre and post = ?post and mid = ?mid
      and e = ?e and st' = ?st'] classes pre_run post_run avoid st(5,6)
  have final: "isDragging ?st'" "position ?st' = \<lparr>vec_x = 440, vec_y = 280\<rparr>"
    by simp_all
  from pre_run mid(3) post_run avoid final
  have "\<exists>mid st'. run ?pre ?st = Inr mid \<and> animation (currentAction mid) = Some ''Move''
      \<and> run ?post (handleDrag ?e mid) = Inr st' \<and> framesAvoidMove ?post (handleDrag ?e mid)
      \<and> isDragging st' \<and> position st' = \<lparr>vec_x = 440, vec_y = 280\<rparr>"
    by blast
  moreover have "list_all duringDrag ?pre" "list_all betweenDragMoves ?post" by simp_all
  ultimately show ?thesis using st(1) by (intro conjI)
qed

text \<open>For the animation \<open>Move\<close> the position does not stay with the pointer: a character is
  picked up at
  (410, 620) and dragged to (450, 300), which puts it at (440, 280); the animation that
  started with the drag completes and the sampler (draw 0.55) selects \<open>Move\<close>; the next frame,
  0.1 s long and still within the drag, ends at \<open>x = 443\<close>.\<close>

theorem drag_with_move_counterexample:
  "complete 0.55 0.9
     (handleDrag \<lparr>clientX = 450, clientY = 300, timeStamp = 16, button = Some 0\<rparr>
       (handleDragStart \<lparr>clientX = 410, clientY = 620, timeStamp = 0, button = Some 0\<rparr>
         ((loadCharacter ANIMATION_NAMES (newCharacter True 1))
            \<lparr>position := \<lparr>vec_x = 400, vec_y = 600\<rparr>\<rparr>)))
   = Inr ((handleDrag \<lparr>clientX = 450, clientY = 300, timeStamp = 16, button = Some 0\<rparr>
       (handleDragStart \<lparr>clientX = 410, clientY = 620, timeStamp = 0, button = Some 0\<rparr>
         ((loadCharacter ANIMATION_NAMES (newCharacter True 1))
            \<lparr>position := \<lparr>vec_x = 400, vec_y = 600\<rparr>\<rparr>)))
        \<lparr>currentAction := \<lparr>animation = Some ''Move'', direction = Right, timestamp = 0\<rparr>\<rparr>)
   \<and> isDragging ((handleDrag \<lparr>clientX = 450, clientY = 300, timeStamp = 16, button = Some 0\<rparr>
       (handleDragStart \<lparr>clientX = 410, clientY = 620, timeStamp = 0, button = Some 0\<rparr>
         ((loadCharacter ANIMATION_NAMES (newCharacter True 1))
            \<lparr>position := \<lparr>vec_x = 400, vec_y = 600\<rparr>\<rparr>)))
        \<lparr>currentAction := \<lparr>animation = Some ''Move'', direction = Right, timestamp = 0\<rparr>\<rparr>)
   \<and> position ((handleDrag \<lparr>clientX = 450, clientY = 300, timeStamp = 16, button = Some 0\<rparr>
       (handleDragStart \<lparr>clientX = 410, clientY = 620, timeStamp = 0, button = Some 0\<rparr>
         ((loadCharacter ANIMATION_NAMES (newCharacter True 1))
            \<lparr>position := \<lparr>vec_x = 400, vec_y = 600\<rparr>\<rparr>)))
        \<lparr>currentAction := \<lparr>animation = Some ''Move'', direction = Right, timestamp = 0\<rparr>\<rparr>)
      = \<lparr>vec_x = 450 - 10, vec_y = 300 - 20\<rparr>
   \<and> position (render \<lparr>now = 1/10, innerWidth = 1000, innerHeight = 800, offsetWidth = 200,
                 offsetHeight = 200, canvasRectX = 0, canvasRectY = 0, canvasWidth = 400,
                 canvasHeight = 400, readPixelAlpha = clearedPixels\<rparr>
       ((handleDrag \<lparr>clientX = 450, clientY = 300, timeStamp = 16, button = Some 0\<rparr>
       (handleDragStart \<lparr>clientX = 410, clientY = 620, timeStamp = 0, button = Some 0\<rparr>
         ((loadCharacter ANIMATION_NAMES (newCharacter True 1))
            \<lparr>position := \<lparr>vec_x = 400, vec_y = 600\<rparr>\<rparr>)))
        \<lparr>currentAction := \<lparr>animation = Some ''Move'', direction = Right, timestamp = 0\<rparr>\<rparr>))
      = \<lparr>vec_x = 443, vec_y = 280\<rparr>"
proof -
  let ?d = "handleDrag \<lparr>clientX = 450, clientY = 300, timeStamp = 16, button = Some 0\<rparr>
       (handleDragStart \<lparr>clientX = 410, clientY = 620, timeStamp = 0, button = Some 0\<rparr>
         ((loadCharacter ANIMATION_NAMES (newCharacter True 1))
            \<lparr>position := \<lparr>vec_x = 400, vec_y = 600\<rparr>\<rparr>))"
  let ?m = "?d\<lparr>currentAction := \<lparr>animation = Some ''Move'', direction = Right, timestamp = 0\<rparr>\<rparr>"
  let ?env = "\<lparr>now = 1/10, innerWidth = 1000, innerHeight = 800, offsetWidth = 200,
                 offsetHeight = 200, canvasRectX = 0, canvasRectY = 0, canvasWidth = 400,
                 canvasHeight = 400, readPixelAlpha = clearedPixels\<rparr>"
  have d: "isDragging ?d" "position ?d = \<lparr>vec_x = 440, vec_y = 280\<rparr>"
    "currentAction ?d = \<lparr>animation = Some ''Relax'', direction = Right, timestamp = 0\<rparr>"
    "\<not> isVehicle ?d" "hasSpecialAnimation ?d" "lastFrameTime ?d = 0"
    by (simp_all add: handleDrag_def handleDragStart_def loadCharacter_def findAnimation_def
        newCharacter_def table_defs Let_def)
  have "animation (currentAction ?d) = Some ''Relax''" "direction (currentAction ?d) = Right"
    by (simp_all only: d(3) action.simps)
  with nextAction_relax_move[OF d(4) d(5), of "currentAction ?d" "0.9"]
  have "nextAction ?d (currentAction ?d) 0.55 0.9
      = Inr \<lparr>animation = Some ''Move'', direction = Right, timestamp = 0\<rparr>"
    by simp
  then have c: "complete 0.55 0.9 ?d = Inr ?m" by (simp only: complete_def sum.case)
  have m: "isDragging ?m" "position ?m = \<lparr>vec_x = 450 - 10, vec_y = 300 - 20\<rparr>"
    using d(1,2) by simp_all
  have r: "position (render ?env ?m) = \<lparr>vec_x = 443, vec_y = 280\<rparr>"
    by (simp add: render_def hitTest_keeps moveCanvas_def d MOVING_SPEED_def Let_def)
  from c m r show ?thesis by (intro conjI)
qed

subsection \<open>The hit test\<close>

lemma moveCanvas_keeps_pointer:
  "currentMousePos (moveCanvas delta maxX st) = currentMousePos st"
  "pixelRatio (moveCanvas delta maxX st) = pixelRatio st"
  "lastMouseX (moveCanvas delta maxX st) = lastMouseX st"
  "lastMouseY (moveCanvas delta maxX st) = lastMouseY st"
  "frameCount (moveCanvas delta maxX st) = frameCount st"
  by (simp_all add: moveCanvas_def Let_def)

lemma applyPhysics_keeps_pointer:
  "currentMousePos (applyPhysics delta maxX maxY st) = currentMousePos st"
  "pixelRatio (applyPhysics delta maxX maxY st) = pixelRatio st"
  "lastMouseX (applyPhysics delta maxX maxY st) = lastMouseX st"
  "lastMouseY (applyPhysics delta maxX maxY st) = lastMouseY st"
  "frameCount (applyPhysics delta maxX maxY st) = frameCount st"
  by (simp_all add: applyPhysics_def windowBoundsCollision_def updateVelocityAndPosition_def
      Let_def)

lemma moveCanvas_keeps_over: "isMouseOver (moveCanvas delta maxX st) = isMouseOver st"
  by (simp add: moveCanvas_def Let_def)

lemma applyPhysics_keeps_over: "isMouseOver (applyPhysics delta maxX maxY st) = isMouseOver st"
  by (simp add: applyPhysics_def windowBoundsCollision_def updateVelocityAndPosition_def Let_def)

lemma pixel_cong:
  assumes "currentMousePos a = currentMousePos b" and "pixelRatio a = pixelRatio b"
  shows "pixelX env a = pixelX env b" and "pixelY env a = pixelY env b"
  using assms by (simp_all add: pixelX_def pixelY_def)

lemma mouseMoved_cong:
  assumes "currentMousePos a = currentMousePos b" and "lastMouseX a = lastMouseX b"
    and "lastMouseY a = lastMouseY b"
  shows "mouseMoved a = mouseMoved b"
  using assms by (simp add: mouseMoved_def)

text \<open>The flag that the hit test of a state leaves behind.\<close>

lemma hitTest_isMouseOver:
  "isMouseOver (hitTest env st) =
    (if frameCount st mod HIT_TEST_INTERVAL = 0 \<or> mouseMoved st
     then (0 \<le> pixelX env st \<and> pixelX env st < real (canvasWidth env)
           \<and> 0 \<le> pixelY env st \<and> pixelY env st < real (canvasHeight env)
           \<and> readPixelAlpha env \<lfloor>pixelX env st\<rfloor> \<lfloor>pixelY env st\<rfloor> \<noteq> 0)
     else isMouseOver st)"
proof -
  let ?st1 = "st\<lparr>lastMouseX := vec_x (currentMousePos st),
                  lastMouseY := vec_y (currentMousePos st)\<rparr>"
  have px: "pixelX env ?st1 = pixelX env st" "pixelY env ?st1 = pixelY env st"
    by (simp_all add: pixelX_def pixelY_def)
  show ?thesis
    unfolding hitTest_def Let_def px
    by auto
qed

text \<open>The part of a frame that precedes the hit test changes the frame count only, among the
  fields the hit test reads.\<close>

lemma render_before_hitTest:
  "\<exists>st4. render env st = hitTest env st4
     \<and> frameCount st4 = Suc (frameCount st)
     \<and> currentMousePos st4 = currentMousePos st \<and> pixelRatio st4 = pixelRatio st
     \<and> lastMouseX st4 = lastMouseX st \<and> lastMouseY st4 = lastMouseY st
     \<and> isMouseOver st4 = isMouseOver st"
  unfolding render_def Let_def
  by (intro exI conjI, rule refl)
     (simp_all add: moveCanvas_keeps_pointer applyPhysics_keeps_pointer
        moveCanvas_keeps_over applyPhysics_keeps_over)

lemma render_isMouseOver:
  "isMouseOver (render env st) =
    (if Suc (frameCount st) mod HIT_TEST_INTERVAL = 0 \<or> mouseMoved st
     then (0 \<le> pixelX env st \<and> pixelX env st < real (canvasWidth env)
           \<and> 0 \<le> pixelY env st \<and> pixelY env st < real (canvasHeight env)
           \<and> readPixelAlpha env \<lfloor>pixelX env st\<rfloor> \<lfloor>pixelY env st\<rfloor> \<noteq> 0)
     else isMouseOver st)"
proof -
  from render_before_hitTest obtain st4 where r: "render env st = hitTest env st4"
    and f: "frameCount st4 = Suc (frameCount st)"
    and m: "currentMousePos st4 = currentMousePos st" and q: "pixelRatio st4 = pixelRatio st"
    and l: "lastMouseX st4 = lastMouseX st" "lastMouseY st4 = lastMouseY st"
    and o: "isMouseOver st4 = isMouseOver st"
    by blast
  note eqs = pixel_cong[OF m q, of env] mouseMoved_cong[OF m l]
  show ?thesis
    unfolding r hitTest_isMouseOver f o eqs by (rule refl)
qed

text \<open>
  C9. Whenever the hit test of a frame runs (the frame count reaches a multiple of 5, or the
  pointer has moved since the last test): if the pointer's mapped pixel coordinate lies
  inside the render target, the is-over flag after the frame is true exactly when the alpha
  byte of the sampled pixel is non-zero; if the mapped coordinate lies outside, the flag is
  false.
\<close>

theorem hit_test_alpha:
  assumes "Suc (frameCount st) mod HIT_TEST_INTERVAL = 0 \<or> mouseMoved st"
  shows "(0 \<le> pixelX env st \<and> pixelX env st < real (canvasWidth env)
          \<and> 0 \<le> pixelY env st \<and> pixelY env st < real (canvasHeight env) \<longrightarrow>
            isMouseOver (render env st)
              = (readPixelAlpha env \<lfloor>pixelX env st\<rfloor> \<lfloor>pixelY env st\<rfloor> \<noteq> 0))
    \<and> (\<not> (0 \<le> pixelX env st \<and> pixelX env st < real (canvasWidth env)
            \<and> 0 \<le> pixelY env st \<and> pixelY env st < real (canvasHeight env)) \<longrightarrow>
            \<not> isMouseOver (render env st))"
  using assms by (auto simp: render_isMouseOver)

theorem hit_test_alpha_witness:
  "mouseMoved (handleMouseMove \<lparr>clientX = 7/4, clientY = 791/4, timeStamp = 5, button = Some 0\<rparr>
      (newCharacter True 1))
   \<and> pixelX \<lparr>now = 1/10, innerWidth = 1000, innerHeight = 800, offsetWidth = 200,
              offsetHeight = 200, canvasRectX = 0, canvasRectY = 0, canvasWidth = 400,
              canvasHeight = 400, readPixelAlpha = opaquePixel\<rparr>
        (handleMouseMove \<lparr>clientX = 7/4, clientY = 791/4, timeStamp = 5, button = Some 0\<rparr>
          (newCharacter True 1)) = 7/2
   \<and> pixelY \<lparr>now = 1/10, innerWidth = 1000, innerHeight = 800, offsetWidth = 200,
              offsetHeight = 200, canvasRectX = 0, canvasRectY = 0, canvasWidth = 400,
              canvasHeight = 400, readPixelAlpha = opaquePixel\<rparr>
        (handleMouseMove \<lparr>clientX = 7/4, clientY = 791/4, timeStamp = 5, button = Some 0\<rparr>
          (newCharacter True 1)) = 9/2
   \<and> opaquePixel 3 4 = 255
   \<and> isMouseOver (render
        \<lparr>now = 1/10, innerWidth = 1000, innerHeight = 800, offsetWidth = 200,
         offsetHeight = 200, canvasRectX = 0, canvasRectY = 0, canvasWidth = 400,
         canvasHeight = 400, readPixelAlpha = opaquePixel\<rparr>
        (handleMouseMove \<lparr>clientX = 7/4, clientY = 791/4, timeStamp = 5, button = Some 0\<rparr>
          (newCharacter True 1)))
   \<and> \<not> isMouseOver (render
        \<lparr>now = 1/10, innerWidth = 1000, innerHeight = 800, offsetWidth = 200,
         offsetHeight = 200, canvasRectX = 0, canvasRectY = 0, canvasWidth = 400,
         canvasHeight = 400, readPixelAlpha = clearedPixels\<rparr>
        (handleMouseMove \<lparr>clientX = 7/4, clientY = 791/4, timeStamp = 5, button = Some 0\<rparr>
          (newCharacter True 1)))
   \<and> pixelX \<lparr>now = 1/10, innerWidth = 1000, innerHeight = 800, offsetWidth = 200,
              offsetHeight = 200, canvasRectX = 0, canvasRectY = 0, canvasWidth = 400,
              canvasHeight = 400, readPixelAlpha = opaquePixel\<rparr>
        (handleMouseMove \<lparr>clientX = 500, clientY = 100, timeStamp = 5, button = Some 0\<rparr>
          (newCharacter True 1)) = 1000
   \<and> \<not> isMouseOver (render
        \<lparr>now = 1/10, innerWidth = 1000, innerHeight = 800, offsetWidth = 200,
         offsetHeight = 200, canvasRectX = 0, canvasRectY = 0, canvasWidth = 400,
         canvasHeight = 400, readPixelAlpha = opaquePixel\<rparr>
        (handleMouseMove \<lparr>clientX = 500, clientY = 100, timeStamp = 5, button = Some 0\<rparr>
          (newCharacter True 1)))"
proof -
  let ?near = "handleMouseMove \<lparr>clientX = 7/4, clientY = 791/4, timeStamp = 5, button = Some 0\<rparr>
          (newCharacter True 1)"
  let ?far = "handleMouseMove \<lparr>clientX = 500, clientY = 100, timeStamp = 5, button = Some 0\<rparr>
          (newCharacter True 1)"
  let ?opaque = "\<lparr>now = 1/10, innerWidth = 1000, innerHeight = 800, offsetWidth = 200,
         offsetHeight = 200, canvasRectX = 0, canvasRectY = 0, canvasWidth = 400,
         canvasHeight = 400, readPixelAlpha = opaquePixel\<rparr>"
  let ?cleared = "\<lparr>now = 1/10, innerWidth = 1000, innerHeight = 800, offsetWidth = 200,
         offsetHeight = 200, canvasRectX = 0, canvasRectY = 0, canvasWidth = 400,
         canvasHeight = 400, readPixelAlpha = clearedPixels\<rparr>"
  have moved: "mouseMoved ?near" "mouseMoved ?far"
    by (simp_all add: mouseMoved_def handleMouseMove_def newCharacter_def)
  have px: "pixelX ?opaque ?near = 7/2" "pixelY ?opaque ?near = 9/2"
    "pixelX ?cleared ?near = 7/2" "pixelY ?cleared ?near = 9/2"
    "pixelX ?opaque ?far = 1000"
    by (simp_all add: pixelX_def pixelY_def handleMouseMove_def newCharacter_def)
  have alpha: "opaquePixel 3 4 = 255" "clearedPixels 3 4 = 0"
    by (simp_all add: opaquePixel_def clearedPixels_def)
  have fl: "\<lfloor>7/2 :: real\<rfloor> = 3" "\<lfloor>9/2 :: real\<rfloor> = 4" by simp_all
  from hit_test_alpha[of ?near ?opaque] moved(1)
  have a: "isMouseOver (render ?opaque ?near)"
    by (simp add: px fl alpha)
  from hit_test_alpha[of ?near ?cleared] moved(1)
  have b: "\<not> isMouseOver (render ?cleared ?near)"
    by (simp add: px fl alpha)
  from hit_test_alpha[of ?far ?opaque] moved(2)
  have c: "\<not> isMouseOver (render ?opaque ?far)"
    by (simp add: px)
  from moved px alpha a b c show ?thesis by (intro conjI)
qed

end
